theory Spec2Isabelle
  imports Complex_Main
begin

section \<open>Numeric constants and errors\<close>

text \<open>
  The notebook works on numpy arrays of double precision numbers. The arithmetic is
  modelled over the reals; the exceptions Python raises are values of \<open>error\<close>.
  \<open>epsilon = sys.float_info.min\<close> is \<open>2 ^ -1022\<close> and
  \<open>log_epsilon = sys.float_info.min_exp\<close> is the integer \<open>-1021\<close>.
\<close>

definition epsilon :: real where
  "epsilon = 1 / 2 ^ 1022"

definition log_epsilon :: real where
  "log_epsilon = - 1021"

datatype error = IndexError | ValueError | AssertionError | ZeroDivisionError

type_synonym arr1 = "real list"
type_synonym arr2 = "real list list"
type_synonym arr3 = "real list list list"
type_synonym arr4 = "real list list list list"

section \<open>safe\_log and reg\_vals\<close>

text \<open>
  \<^verbatim>\<open>
  def safe_log(arr, threshold=epsilon):
      shape = np.shape(arr)
      flat = arr.flatten()
      logged = np.log(np.array([max(a, threshold) for a in flat])).reshape(shape)
      return logged

  def reg_vals(arr, threshold=log_epsilon):
      arr[arr < threshold] = threshold
      return arr
  \<close>
  What the two functions do to one entry:
\<close>

definition safe_log_elem :: "real \<Rightarrow> real \<Rightarrow> real" where
  "safe_log_elem threshold a = ln (max a threshold)"

definition reg_val :: "real \<Rightarrow> real \<Rightarrow> real" where
  "reg_val threshold a = (if a < threshold then threshold else a)"

text \<open>
  An array object is its shape and its entries in row-major order. The store is the list
  of the array objects alive, a reference is an index into it. \<open>safe_log\<close> builds its
  result from \<open>arr.flatten()\<close>, which is a copy, so it allocates a new object;
  \<open>reg_vals\<close> assigns through a boolean mask into \<open>arr\<close> itself and returns that
  same object.
\<close>

record ndarray =
  shape :: "nat list"
  flat :: "real list"

type_synonym store = "ndarray list"

definition safe_log :: "nat \<Rightarrow> real \<Rightarrow> store \<Rightarrow> nat \<times> store" where
  "safe_log arr threshold s =
     (let shp = shape (s ! arr);
          flt = flat (s ! arr);
          logged = \<lparr>shape = shp, flat = map (safe_log_elem threshold) flt\<rparr>
      in (length s, s @ [logged]))"

definition reg_vals :: "nat \<Rightarrow> real \<Rightarrow> store \<Rightarrow> nat \<times> store" where
  "reg_vals arr threshold s =
     (arr, s[arr := (s ! arr)\<lparr>flat := map (reg_val threshold) (flat (s ! arr))\<rparr>])"

text \<open>
  Every call of the notebook passes a temporary (the value of an arithmetic expression)
  or reads the result only, so the numerical code below works on values: nested lists,
  with the entry-wise functions mapped over them.
\<close>

definition safe_log1 :: "arr1 \<Rightarrow> arr1" where
  "safe_log1 a = map (safe_log_elem epsilon) a"

definition safe_log3 :: "arr3 \<Rightarrow> arr3" where
  "safe_log3 a = map (map (map (safe_log_elem epsilon))) a"

definition reg_vals3 :: "arr3 \<Rightarrow> arr3" where
  "reg_vals3 a = map (map (map (reg_val log_epsilon))) a"

definition reg_vals4 :: "arr4 \<Rightarrow> arr4" where
  "reg_vals4 a = map reg_vals3 a"

section \<open>The catalogue and the notebook's globals\<close>

text \<open>
  \<open>sim_info\<close> is the content of \<^verbatim>\<open>data/data.hkl\<close>: the keys
  \<^verbatim>\<open>'types'\<close>, \<^verbatim>\<open>'z_bins'\<close>, \<^verbatim>\<open>'mu_bins'\<close>,
  \<^verbatim>\<open>'interim ln posteriors'\<close>, \<^verbatim>\<open>'interim ln prior'\<close> and
  \<^verbatim>\<open>'ln selection function'\<close>.
\<close>

record sim_info =
  si_types :: "string list"
  si_z_bins :: arr1
  si_mu_bins :: arr1
  si_interim_ln_posteriors :: arr4
  si_interim_ln_prior :: arr3
  si_ln_selection_function :: arr3

text \<open>
  \<open>env\<close> holds the module-level variables the functions read, as they stand once
  the set-up cells have run. \<open>n_types\<close>, \<open>n_zs\<close> and \<open>n_mus\<close> are first
  taken from the grid and then reassigned by
  \<^verbatim>\<open>(n_SNe, n_types, n_zs, n_mus) = np.shape(lninterimposteriors)\<close>; the later
  assignment is the one the functions see. \<open>prior_cosmo_dist\<close> is the list of the
  factors' \<open>logpdf\<close> functions (scipy's frozen distributions).
\<close>

record env =
  n_SNe :: nat
  n_types :: nat
  n_zs :: nat
  n_mus :: nat
  z_bins :: arr1
  mu_bins :: arr1
  lninterimposteriors :: arr4
  lninterimhyperlikelihood :: arr3
  lnselectionfunction :: arr3
  flat_lnhyperlikelihood :: arr3
  const_term :: arr4
  prior_cosmo_dist :: "(real \<Rightarrow> real) list"

text \<open>
  \<^verbatim>\<open>
  z_difs = z_bins[1:] - z_bins[:-1]
  z_mids = (z_bins[1:] + z_bins[:-1]) / 2.
  mu_difs = mu_bins[1:] - mu_bins[:-1]
  \<close>
\<close>

definition difs :: "arr1 \<Rightarrow> arr1" where
  "difs bins = map2 (\<lambda>a b. a - b) (tl bins) (butlast bins)"

definition mids :: "arr1 \<Rightarrow> arr1" where
  "mids bins = map2 (\<lambda>a b. (a + b) / 2) (tl bins) (butlast bins)"

definition z_difs :: "env \<Rightarrow> arr1" where
  "z_difs g = difs (z_bins g)"

definition z_mids :: "env \<Rightarrow> arr1" where
  "z_mids g = mids (z_bins g)"

definition mu_difs :: "env \<Rightarrow> arr1" where
  "mu_difs g = difs (mu_bins g)"

text \<open>
  The extent of the second axis of a nested list. An array whose first axis is empty is
  the empty list, and its further extents read as 0.
\<close>

definition len_hd :: "'a list list \<Rightarrow> nat" where
  "len_hd xs = (case xs of [] \<Rightarrow> 0 | x # _ \<Rightarrow> length x)"

definition sub3 :: "arr3 \<Rightarrow> arr3 \<Rightarrow> arr3" where
  "sub3 a b = map2 (map2 (map2 (\<lambda>x y. x - y))) a b"

definition add3 :: "arr3 \<Rightarrow> arr3 \<Rightarrow> arr3" where
  "add3 a b = map2 (map2 (map2 (\<lambda>x y. x + y))) a b"

text \<open>
  \<^verbatim>\<open>
  flat_hyperlikelihood = np.ones(np.shape(interim_ln_prior)) * epsilon
  flat_lnhyperlikelihood = safe_log(flat_hyperlikelihood)
  const_term = reg_vals(lninterimposteriors - lninterimhyperlikelihood[np.newaxis, :]
                        - lnselectionfunction[np.newaxis, :])
  \<close>
  Both are computed once, by the cells that follow the loading of the catalogue. The
  interim prior and the selection function are broadcast along the axis of the objects.
\<close>

definition load :: "sim_info \<Rightarrow> (real \<Rightarrow> real) list \<Rightarrow> env" where
  "load sim_info dists =
     (let post = si_interim_ln_posteriors sim_info;
          prior = si_interim_ln_prior sim_info;
          sel = si_ln_selection_function sim_info;
          flat_hyperlikelihood = map (map (map (\<lambda>_. 1 * epsilon))) prior
      in \<lparr>n_SNe = length post,
          n_types = len_hd post,
          n_zs = len_hd (concat post),
          n_mus = len_hd (concat (concat post)),
          z_bins = si_z_bins sim_info,
          mu_bins = si_mu_bins sim_info,
          lninterimposteriors = post,
          lninterimhyperlikelihood = prior,
          lnselectionfunction = sel,
          flat_lnhyperlikelihood = safe_log3 flat_hyperlikelihood,
          const_term = reg_vals4 (map (\<lambda>obj. sub3 (sub3 obj prior) sel) post),
          prior_cosmo_dist = dists\<rparr>)"

text \<open>
  The arrays of a well-formed catalogue are rectangular and agree with the grid: there is
  at least one object, type, redshift bin and distance-modulus bin, and each axis has one
  bin edge more than bins. On such a catalogue every numpy broadcast of the code other
  than the one inside the assertion of \<open>lnhyperlikelihood\<close> pairs equal extents,
  which the model writes as \<open>zip\<close>.
\<close>

definition rect3 :: "nat \<Rightarrow> nat \<Rightarrow> nat \<Rightarrow> arr3 \<Rightarrow> bool" where
  "rect3 nt nz nm a \<longleftrightarrow>
     length a = nt \<and> (\<forall>t \<in> set a. length t = nz \<and> (\<forall>r \<in> set t. length r = nm))"

definition wf_info :: "sim_info \<Rightarrow> bool" where
  "wf_info sim_info \<longleftrightarrow>
     (let post = si_interim_ln_posteriors sim_info;
          nt = length (si_types sim_info);
          nz = length (si_z_bins sim_info) - 1;
          nm = length (si_mu_bins sim_info) - 1
      in 0 < length post \<and> 0 < nt \<and> 0 < nz \<and> 0 < nm
         \<and> (\<forall>obj \<in> set post. rect3 nt nz nm obj)
         \<and> rect3 nt nz nm (si_interim_ln_prior sim_info)
         \<and> rect3 nt nz nm (si_ln_selection_function sim_info))"

section \<open>The admissible box\<close>

text \<open>
  \<^verbatim>\<open>
  min_H0, max_H0 = 50., 90.
  min_Om0, max_Om0 = 0., 1.
  def param_check(params):
      if params[0] > min_H0 and params[0] < max_H0 and params[1] > min_Om0 and params[1] < max_Om0:
          return True
      else:
          return False
  \<close>
  \<open>and\<close> evaluates from the left and stops at the first false operand, so
  \<open>params[1]\<close> is read only when the first coordinate is inside its bounds.
\<close>

definition min_H0 :: real where "min_H0 = 50"
definition max_H0 :: real where "max_H0 = 90"
definition min_Om0 :: real where "min_Om0 = 0"
definition max_Om0 :: real where "max_Om0 = 1"

definition py_get :: "'a list \<Rightarrow> nat \<Rightarrow> error + 'a" where
  "py_get xs i = (if i < length xs then Inr (xs ! i) else Inl IndexError)"

definition param_check :: "real list \<Rightarrow> error + bool" where
  "param_check params =
     (case py_get params 0 of
        Inl e \<Rightarrow> Inl e
      | Inr p0 \<Rightarrow>
          if \<not> p0 > min_H0 then Inr False
          else if \<not> p0 < max_H0 then Inr False
          else (case py_get params 1 of
                  Inl e \<Rightarrow> Inl e
                | Inr p1 \<Rightarrow>
                    if \<not> p1 > min_Om0 then Inr False
                    else if \<not> p1 < max_Om0 then Inr False
                    else Inr True))"

section \<open>Binning the distance moduli\<close>

text \<open>
  \<open>bisect.bisect\<close> of the standard library is \<open>bisect_right\<close> with
  \<open>lo = 0\<close> and \<open>hi = len(a)\<close>:
  \<^verbatim>\<open>
  while lo < hi:
      mid = (lo + hi) // 2
      if x < a[mid]: hi = mid
      else: lo = mid + 1
  return lo
  \<close>
\<close>

function bisect_loop :: "real list \<Rightarrow> real \<Rightarrow> nat \<Rightarrow> nat \<Rightarrow> nat" where
  "bisect_loop a x lo hi =
     (if lo < hi then
        (let mid = (lo + hi) div 2
         in if x < a ! mid then bisect_loop a x lo mid else bisect_loop a x (mid + 1) hi)
      else lo)"
  by pat_completeness auto
termination
  by (relation "measure (\<lambda>(a, x, lo, hi). hi - lo)") auto

declare bisect_loop.simps [simp del]

definition bisect :: "real list \<Rightarrow> real \<Rightarrow> nat" where
  "bisect a x = bisect_loop a x 0 (length a)"

text \<open>
  Indexing an array of extent \<open>n\<close> with a Python integer: a negative index counts
  from the end, an index outside \<open>-n .. n - 1\<close> raises \<open>IndexError\<close>.
\<close>

definition py_index :: "nat \<Rightarrow> int \<Rightarrow> error + nat" where
  "py_index n i =
     (let j = (if i < 0 then int n + i else i)
      in if 0 \<le> j \<and> j < int n then Inr (nat j) else Inl IndexError)"

text \<open>
  \<^verbatim>\<open>
  def mu_binner(mus):
      matrix = []
      for mu in mus:
          vector = np.zeros(n_mus)
          ind = bisect.bisect(mu_bins[:-1], mu) - 1
          vector[ind] += 1.
          matrix.append(vector)
      return np.array([matrix] * n_types)
  \<close>
  \<open>mu_vector\<close> is the body of the loop, \<open>mu_rows\<close> the loop.
\<close>

definition mu_vector :: "env \<Rightarrow> real \<Rightarrow> error + arr1" where
  "mu_vector g mu =
     (let vector = replicate (n_mus g) 0;
          ind = int (bisect (butlast (mu_bins g)) mu) - 1
      in case py_index (n_mus g) ind of
           Inl e \<Rightarrow> Inl e
         | Inr k \<Rightarrow> Inr (vector[k := vector ! k + 1]))"

fun mu_rows :: "env \<Rightarrow> real list \<Rightarrow> error + arr2" where
  "mu_rows g [] = Inr []"
| "mu_rows g (mu # mus) =
     (case mu_vector g mu of
        Inl e \<Rightarrow> Inl e
      | Inr vector \<Rightarrow>
          (case mu_rows g mus of
             Inl e \<Rightarrow> Inl e
           | Inr matrix \<Rightarrow> Inr (vector # matrix)))"

definition mu_binner :: "env \<Rightarrow> real list \<Rightarrow> error + arr3" where
  "mu_binner g mus =
     (case mu_rows g mus of
        Inl e \<Rightarrow> Inl e
      | Inr matrix \<Rightarrow> Inr (replicate (n_types g) matrix))"

text \<open>
  For the proofs: the bin \<open>mu_vector\<close> marks, and the vector with a single 1.
  An insertion point of 0 gives the index \<open>-1\<close>, which Python reads as the last entry.
\<close>

definition bin_of :: "env \<Rightarrow> real \<Rightarrow> nat" where
  "bin_of g mu =
     (let b = bisect (butlast (mu_bins g)) mu in if b = 0 then n_mus g - 1 else b - 1)"

definition one_hot :: "nat \<Rightarrow> nat \<Rightarrow> arr1" where
  "one_hot n k = (replicate n 0)[k := 1]"

section \<open>The log-hyperlikelihood\<close>

text \<open>
  The distance modulus comes from astropy
  (\<^verbatim>\<open>cosmology.FlatLambdaCDM(H0=.., Om0=..).distmod(z_mids).value\<close>), which is
  not part of the repository: it is the parameter \<open>distmod\<close>, a function of the Hubble
  constant, the matter density and one redshift, applied to every midpoint.
\<close>

definition cosmo_delta :: "env \<Rightarrow> (real \<Rightarrow> real \<Rightarrow> real \<Rightarrow> real) \<Rightarrow> real list \<Rightarrow> error + arr3" where
  "cosmo_delta g distmod cosmo_hyperparameters =
     mu_binner g (map (distmod (cosmo_hyperparameters ! 0) (cosmo_hyperparameters ! 1)) (z_mids g))"

text \<open>
  The normalising sum
  \<^verbatim>\<open>np.sum(delta * z_difs[np.newaxis, :, np.newaxis] * mu_difs[np.newaxis, np.newaxis, :]
         * np.ones((n_types))[:, np.newaxis, np.newaxis] / n_types)\<close>
  weighs the entry \<open>[t][z][m]\<close> with \<open>z_difs[z]\<close> and \<open>mu_difs[m]\<close>.
\<close>

definition norm_sum :: "env \<Rightarrow> arr3 \<Rightarrow> real" where
  "norm_sum g delta =
     (\<Sum>tslice\<leftarrow>delta. \<Sum>(row, dz)\<leftarrow>zip tslice (z_difs g).
        \<Sum>(d, dmu)\<leftarrow>zip row (mu_difs g). d * dz * dmu * 1 / real (n_types g))"

text \<open>
  The sum inside the assertion is written with
  \<^verbatim>\<open>mu_difs[np.newaxis, :, np.newaxis]\<close>: the widths of the distance-modulus bins
  lie along the redshift axis. numpy broadcasts two extents when they are equal or one of
  them is 1 (the operand of extent 1 is repeated), and raises \<open>ValueError\<close> otherwise.
  The entry \<open>[t][z][m]\<close> is then weighed with \<open>z_difs[z]\<close> and \<open>mu_difs[z]\<close>.
\<close>

definition broadcast_extent :: "nat \<Rightarrow> nat \<Rightarrow> error + nat" where
  "broadcast_extent a b =
     (if a = b then Inr a else if a = 1 then Inr b else if b = 1 then Inr a
      else Inl ValueError)"

definition stretch :: "nat \<Rightarrow> 'a list \<Rightarrow> 'a list" where
  "stretch n xs = (if length xs = 1 then replicate n (hd xs) else xs)"

definition assert_sum :: "env \<Rightarrow> arr3 \<Rightarrow> error + real" where
  "assert_sum g delta =
     (case broadcast_extent (length (z_difs g)) (length (mu_difs g)) of
        Inl e \<Rightarrow> Inl e
      | Inr n \<Rightarrow>
          Inr (\<Sum>tslice\<leftarrow>delta.
                 \<Sum>(row, dz, dmu)\<leftarrow>zip (stretch n tslice)
                                       (zip (stretch n (z_difs g)) (stretch n (mu_difs g))).
                   \<Sum>d\<leftarrow>row. d * dz * dmu * 1 / real (n_types g)))"

text \<open>\<open>np.isclose(a, b)\<close> with its default tolerances \<open>rtol = 1e-05\<close>, \<open>atol = 1e-08\<close>.\<close>

definition isclose :: "real \<Rightarrow> real \<Rightarrow> bool" where
  "isclose a b \<longleftrightarrow> \<bar>a - b\<bar> \<le> 1 / 10 ^ 8 + 1 / 10 ^ 5 * \<bar>b\<bar>"

text \<open>
  \<^verbatim>\<open>
  def lnhyperlikelihood(hyperparameters):
      cosmo_hyperparameters = hyperparameters
      if param_check(hyperparameters):
          sample_cosmo = cosmology.FlatLambdaCDM(H0=cosmo_hyperparameters[0], Om0=cosmo_hyperparameters[1])
          delta = mu_binner(sample_cosmo.distmod(z_mids).value)
          delta /= np.sum(delta * z_difs[np.newaxis, :, np.newaxis] * mu_difs[np.newaxis, np.newaxis, :] * np.ones((n_types))[:, np.newaxis, np.newaxis] / n_types)
          assert np.isclose(np.sum(delta * z_difs[np.newaxis, :, np.newaxis] * mu_difs[np.newaxis, :, np.newaxis] * np.ones((n_types))[:, np.newaxis, np.newaxis] / n_types), 1.)
          lnprob = safe_log(delta)
      else:
          lnprob = flat_lnhyperlikelihood
      return lnprob
  \<close>
  A division of an array by 0 does not raise in numpy: it leaves entries that are not
  finite, the asserted sum is then not finite either and \<open>np.isclose\<close> is false, so
  a normalising sum of 0 ends in the \<open>AssertionError\<close>.
\<close>

definition lnhyperlikelihood ::
    "env \<Rightarrow> (real \<Rightarrow> real \<Rightarrow> real \<Rightarrow> real) \<Rightarrow> real list \<Rightarrow> error + arr3" where
  "lnhyperlikelihood g distmod hyperparameters =
     (case param_check hyperparameters of
        Inl e \<Rightarrow> Inl e
      | Inr inside \<Rightarrow>
          if inside then
            (case cosmo_delta g distmod hyperparameters of
               Inl e \<Rightarrow> Inl e
             | Inr delta0 \<Rightarrow>
                 (let normaliser = norm_sum g delta0;
                      delta = map (map (map (\<lambda>d. d / normaliser))) delta0
                  in case assert_sum g delta of
                       Inl e \<Rightarrow> Inl e
                     | Inr asserted \<Rightarrow>
                         if normaliser \<noteq> 0 \<and> isclose asserted 1 then Inr (safe_log3 delta)
                         else Inl AssertionError))
          else Inr (flat_lnhyperlikelihood g))"

section \<open>The log-posterior and the log-hyperposterior\<close>

text \<open>
  \<^verbatim>\<open>
  class indie_dist(object):
      def logpdf(self, locs):
          n_items = len(locs)
          lnprob = 0
          for d in range(self.n_dists):
              lnprob += self.dists[d].logpdf(locs[d])
          return lnprob

  def lnprior(hyperparameters):
      cosmo_hyperparameters = hyperparameters
      cosmo_prior_prob = prior_cosmo_dist.logpdf(cosmo_hyperparameters)
      return cosmo_prior_prob
  \<close>
\<close>

fun logpdf :: "(real \<Rightarrow> real) list \<Rightarrow> real list \<Rightarrow> nat \<Rightarrow> real \<Rightarrow> error + real" where
  "logpdf [] locs d lnprob = Inr lnprob"
| "logpdf (f # dists) locs d lnprob =
     (case py_get locs d of
        Inl e \<Rightarrow> Inl e
      | Inr x \<Rightarrow> logpdf dists locs (d + 1) (lnprob + f x))"

definition lnprior :: "env \<Rightarrow> real list \<Rightarrow> error + real" where
  "lnprior g hyperparameters = logpdf (prior_cosmo_dist g) hyperparameters 0 0"

text \<open>
  \<^verbatim>\<open>
  def lnposterior(hyperparameters):
      new_term = lnhyperlikelihood(hyperparameters)[np.newaxis, :]
      in_exp = reg_vals(const_term + new_term)
      in_log = np.sum(np.sum(np.sum(np.exp(in_exp) * mu_difs[np.newaxis, np.newaxis, :], axis=3) * z_difs[np.newaxis, :], axis=2) / n_types, axis=1)
      in_sum = safe_log(in_log)
      summed = np.sum(in_sum, axis=0)
      return summed

  def lnhyperposterior(hyperparameters):
      return max(lnprior(hyperparameters) + lnposterior(hyperparameters), log_epsilon)
  \<close>
  \<open>in_log\<close> is built from the inside: the sum along the distance-modulus axis, times
  \<open>z_difs\<close>, summed along the redshift axis, divided by \<open>n_types\<close>, summed along the
  type axis.
\<close>

definition in_log_obj :: "env \<Rightarrow> arr3 \<Rightarrow> real" where
  "in_log_obj g obj =
     (\<Sum>tslice\<leftarrow>obj.
        (\<Sum>(row, dz)\<leftarrow>zip tslice (z_difs g).
           (\<Sum>(e, dmu)\<leftarrow>zip row (mu_difs g). exp e * dmu) * dz) / real (n_types g))"

definition lnposterior ::
    "env \<Rightarrow> (real \<Rightarrow> real \<Rightarrow> real \<Rightarrow> real) \<Rightarrow> real list \<Rightarrow> error + real" where
  "lnposterior g distmod hyperparameters =
     (case lnhyperlikelihood g distmod hyperparameters of
        Inl e \<Rightarrow> Inl e
      | Inr new_term \<Rightarrow>
          (let in_exp = map (\<lambda>obj. reg_vals3 (add3 obj new_term)) (const_term g);
               in_log = map (in_log_obj g) in_exp;
               in_sum = safe_log1 in_log;
               summed = sum_list in_sum
           in Inr summed))"

definition lnhyperposterior ::
    "env \<Rightarrow> (real \<Rightarrow> real \<Rightarrow> real \<Rightarrow> real) \<Rightarrow> real list \<Rightarrow> error + real" where
  "lnhyperposterior g distmod hyperparameters =
     (case lnprior g hyperparameters of
        Inl e \<Rightarrow> Inl e
      | Inr lp \<Rightarrow>
          (case lnposterior g distmod hyperparameters of
             Inl e \<Rightarrow> Inl e
           | Inr lq \<Rightarrow> Inr (max (lp + lq) log_epsilon)))"

text \<open>
  Claim C1 in the specification's words, to compare with \<open>lnposterior\<close>: the entry
  of \<open>combined\<close> for one object and one grid cell, the integral of one object over the
  grid, and the sum of the logs over the objects.
\<close>

definition combined :: "env \<Rightarrow> arr3 \<Rightarrow> nat \<Rightarrow> nat \<Rightarrow> nat \<Rightarrow> nat \<Rightarrow> real" where
  "combined g new_term obj t z m =
     reg_val log_epsilon (const_term g ! obj ! t ! z ! m + new_term ! t ! z ! m)"

definition grid_integral :: "env \<Rightarrow> arr3 \<Rightarrow> nat \<Rightarrow> real" where
  "grid_integral g new_term obj =
     (\<Sum>t < n_types g. \<Sum>z < n_zs g. \<Sum>m < n_mus g.
        exp (combined g new_term obj t z m) * (mu_difs g ! m) * (z_difs g ! z) / real (n_types g))"

definition log_posterior_spec :: "env \<Rightarrow> arr3 \<Rightarrow> real" where
  "log_posterior_spec g new_term =
     (\<Sum>obj < n_SNe g. safe_log_elem epsilon (grid_integral g new_term obj))"

section \<open>The Gelman-Rubin statistic\<close>

text \<open>
  numpy does not raise when it divides by 0: \<open>x / 0\<close> is \<open>inf\<close> for positive
  \<open>x\<close> and \<open>nan\<close> for \<open>x = 0\<close>. A value of the statistic is a real number or
  one of the two. Python's own division, on the plain numbers \<open>n\<close> and \<open>m - 1.\<close>,
  raises \<open>ZeroDivisionError\<close>.
\<close>

datatype npfloat = Fin real | PosInf | NaN

text \<open>\<open>np.mean\<close> and \<open>np.var(.., ddof=1)\<close> along the axis of one chain.\<close>

definition mean :: "real list \<Rightarrow> real" where
  "mean xs = sum_list xs / real (length xs)"

definition var_ddof1 :: "real list \<Rightarrow> real" where
  "var_ddof1 xs = (\<Sum>x\<leftarrow>xs. (x - mean xs) ^ 2) / (real (length xs) - 1)"

text \<open>
  \<^verbatim>\<open>
  def single_parameter_gr_stat(chain):
      ssq = np.var(chain, axis=1, ddof=1)
      W = np.mean(ssq, axis=0)
      xb = np.mean(chain, axis=1)
      xbb = np.mean(xb, axis=0)
      m = chain.shape[0]
      n = chain.shape[1]
      B = n / (m - 1.) * np.sum((xbb - xb)**2., axis=0)
      var_x = (n - 1.) / n * W + 1. / n * B
      R_hat = np.sqrt(var_x / W)
      return R_hat
  \<close>
  \<open>chain\<close> has one row per walker. With a single sample per walker the sample
  variances are \<open>0 / 0\<close>, so \<open>W\<close> and the result are \<open>nan\<close>.
\<close>

definition single_parameter_gr_stat :: "arr2 \<Rightarrow> error + npfloat" where
  "single_parameter_gr_stat chain =
     (let m = length chain;
          n = len_hd chain
      in if real m - 1 = 0 then Inl ZeroDivisionError
         else if n = 0 then Inl ZeroDivisionError
         else if n = 1 then Inr NaN
         else
           (let ssq = map var_ddof1 chain;
                W = mean ssq;
                xb = map mean chain;
                xbb = mean xb;
                B = real n / (real m - 1) * (\<Sum>x\<leftarrow>xb. (xbb - x) ^ 2);
                var_x = (real n - 1) / real n * W + 1 / real n * B
            in if W = 0 then (if var_x = 0 then Inr NaN else Inr PosInf)
               else Inr (Fin (sqrt (var_x / W)))))"

text \<open>
  \<^verbatim>\<open>
  def multi_parameter_gr_stat(sample):
      dims = np.shape(sample)
      (n_walkers, n_iterations, n_params) = dims
      n_burn_ins = n_iterations / 2
      chain_ensemble = np.swapaxes(sample, 0, 1)
      chain_ensemble = chain_ensemble[n_burn_ins:, :]
      Rs = np.zeros((n_params))
      for i in range(n_params):
          chains = chain_ensemble[:, :, i].T
          Rs[i] = single_parameter_gr_stat(chains)
      return Rs
  \<close>
  The notebook runs on Python 2, where \<open>/\<close> on two integers is the integer division.
  \<open>sample\<close> is indexed by walker, iteration and parameter; swapping the first two axes,
  cutting the first \<open>n_burn_ins\<close> iterations and transposing the slice of parameter
  \<open>i\<close> gives, for each walker, its kept samples of parameter \<open>i\<close>.
\<close>

definition chains_of :: "arr3 \<Rightarrow> nat \<Rightarrow> arr2" where
  "chains_of sample i =
     (let n_iterations = len_hd sample;
          n_burn_ins = n_iterations div 2
      in map (\<lambda>walker. map (\<lambda>params. params ! i) (drop n_burn_ins walker)) sample)"

fun gr_loop :: "arr3 \<Rightarrow> nat list \<Rightarrow> error + npfloat list" where
  "gr_loop sample [] = Inr []"
| "gr_loop sample (i # is) =
     (case single_parameter_gr_stat (chains_of sample i) of
        Inl e \<Rightarrow> Inl e
      | Inr R_hat \<Rightarrow>
          (case gr_loop sample is of
             Inl e \<Rightarrow> Inl e
           | Inr Rs \<Rightarrow> Inr (R_hat # Rs)))"

definition multi_parameter_gr_stat :: "arr3 \<Rightarrow> error + npfloat list" where
  "multi_parameter_gr_stat sample =
     (let n_params = len_hd (concat sample)
      in gr_loop sample [0..<n_params])"

text \<open>
  \<^verbatim>\<open>
  def gr_test(sample, threshold=gr_limit):
      gr = multi_parameter_gr_stat(sample)
      print('Gelman-Rubin test statistic = '+str(gr))
      return np.max(gr) > threshold
  \<close>
  \<open>np.max\<close> raises \<open>ValueError\<close> on an empty array and is \<open>nan\<close> as soon as
  one entry is; a comparison with \<open>nan\<close> is false.
\<close>

fun np_maximum :: "npfloat \<Rightarrow> npfloat \<Rightarrow> npfloat" where
  "np_maximum NaN y = NaN"
| "np_maximum x NaN = NaN"
| "np_maximum PosInf y = PosInf"
| "np_maximum x PosInf = PosInf"
| "np_maximum (Fin a) (Fin b) = Fin (max a b)"

definition np_max :: "npfloat list \<Rightarrow> error + npfloat" where
  "np_max xs = (case xs of [] \<Rightarrow> Inl ValueError | x # rest \<Rightarrow> Inr (foldl np_maximum x rest))"

fun np_greater :: "npfloat \<Rightarrow> real \<Rightarrow> bool" where
  "np_greater (Fin a) threshold = (a > threshold)"
| "np_greater PosInf threshold = True"
| "np_greater NaN threshold = False"

text \<open>The comparison \<open>x <= threshold\<close> of numpy, for the statement of claim C7.\<close>

fun np_less_eq :: "npfloat \<Rightarrow> real \<Rightarrow> bool" where
  "np_less_eq (Fin a) threshold = (a \<le> threshold)"
| "np_less_eq PosInf threshold = False"
| "np_less_eq NaN threshold = False"

definition gr_test :: "arr3 \<Rightarrow> real \<Rightarrow> error + bool" where
  "gr_test sample threshold =
     (case multi_parameter_gr_stat sample of
        Inl e \<Rightarrow> Inl e
      | Inr gr \<Rightarrow>
          (case np_max gr of
             Inl e \<Rightarrow> Inl e
           | Inr mx \<Rightarrow> Inr (np_greater mx threshold)))"

section \<open>The MCMC driver\<close>

text \<open>
  The settings of the driver; the notebook has \<open>nwalkers = 100\<close>, \<open>nsteps = 1000\<close>,
  \<open>ninit = 100\<close> and \<open>gr_limit = 1.2\<close>.
\<close>

record config =
  nwalkers :: nat
  nsteps :: nat
  ninit :: nat
  gr_limit :: real

definition notebook_config :: config where
  "notebook_config = \<lparr>nwalkers = 100, nsteps = 1000, ninit = 100, gr_limit = 12 / 10\<rparr>"

text \<open>
  \<^verbatim>\<open>
  def run_MCMC(ivals):
      sampler = emcee.EnsembleSampler(nwalkers, n_cosmo_hyperparams, lnhyperposterior, threads=nthreads)
      burn_ins = 0
      burning_in = True
      vals = ivals
      full_chain = np.array([[ivals[w]] for w in range(nwalkers)])
      while burning_in:
          burn_in_mcmc_outputs = sample(sampler, vals, ninit)
          with open('data/mcmc'+str(burn_ins)+'.hkl', 'w') as file_location:
              hickle.dump(burn_in_mcmc_outputs, file_location)
          progress_plotter(burn_ins)
          full_chain = np.concatenate((full_chain, burn_in_mcmc_outputs['chain']), axis=1)
          burning_in = gr_test(full_chain)
          vals = np.array([item[-1] for item in burn_in_mcmc_outputs['chain']])
          burn_ins += 1
      mcmc_outputs = sample(sampler, vals, nsteps)
      full_chain = np.concatenate((full_chain, mcmc_outputs['chain']), axis=1)
      with open('data/full_chain.hkl', 'w') as file_location:
          hickle.dump(full_chain, file_location)
      return full_chain
  \<close>
  The ensemble sampler (emcee) is not part of the repository and draws random numbers.
  It is the parameter \<open>smp\<close>: the chain it returns for its \<open>k\<close>-th call, from the
  start positions and the number of steps, one list of samples per walker. Writing the
  checkpoints and plotting are left out. The loop need not end, so its value is an
  \<open>option\<close>.
\<close>

type_synonym sampler = "nat \<Rightarrow> arr2 \<Rightarrow> nat \<Rightarrow> arr3"

record mcmc =
  burn_ins :: nat
  burning_in :: bool
  vals :: arr2
  full_chain :: arr3

definition init_mcmc :: "config \<Rightarrow> arr2 \<Rightarrow> error + mcmc" where
  "init_mcmc cfg ivals =
     (if length ivals < nwalkers cfg then Inl IndexError
      else Inr \<lparr>burn_ins = 0, burning_in = True, vals = ivals,
                full_chain = map (\<lambda>w. [ivals ! w]) [0..<nwalkers cfg]\<rparr>)"

fun last_samples :: "arr3 \<Rightarrow> error + arr2" where
  "last_samples [] = Inr []"
| "last_samples (item # items) =
     (if item = [] then Inl IndexError
      else (case last_samples items of
              Inl e \<Rightarrow> Inl e
            | Inr rest \<Rightarrow> Inr (last item # rest)))"

definition burn_in_epoch :: "config \<Rightarrow> sampler \<Rightarrow> mcmc \<Rightarrow> error + mcmc" where
  "burn_in_epoch cfg smp st =
     (let chain = smp (burn_ins st) (vals st) (ninit cfg);
          full_chain' = map2 (\<lambda>a b. a @ b) (full_chain st) chain
      in case gr_test full_chain' (gr_limit cfg) of
           Inl e \<Rightarrow> Inl e
         | Inr b \<Rightarrow>
             (case last_samples chain of
                Inl e \<Rightarrow> Inl e
              | Inr v \<Rightarrow>
                  Inr \<lparr>burn_ins = burn_ins st + 1, burning_in = b, vals = v,
                       full_chain = full_chain'\<rparr>))"

partial_function (option) burn_in_loop :: "config \<Rightarrow> sampler \<Rightarrow> mcmc \<Rightarrow> (error + mcmc) option" where
  "burn_in_loop cfg smp st =
     (if burning_in st then
        (case burn_in_epoch cfg smp st of
           Inl e \<Rightarrow> Some (Inl e)
         | Inr st' \<Rightarrow> burn_in_loop cfg smp st')
      else Some (Inr st))"

definition production :: "config \<Rightarrow> sampler \<Rightarrow> mcmc \<Rightarrow> arr3" where
  "production cfg smp st =
     map2 (\<lambda>a b. a @ b) (full_chain st) (smp (burn_ins st) (vals st) (nsteps cfg))"

definition mcmc_from :: "config \<Rightarrow> sampler \<Rightarrow> mcmc \<Rightarrow> (error + arr3) option" where
  "mcmc_from cfg smp st =
     (case burn_in_loop cfg smp st of
        None \<Rightarrow> None
      | Some (Inl e) \<Rightarrow> Some (Inl e)
      | Some (Inr st') \<Rightarrow> Some (Inr (production cfg smp st')))"

definition run_MCMC :: "config \<Rightarrow> sampler \<Rightarrow> arr2 \<Rightarrow> (error + arr3) option" where
  "run_MCMC cfg smp ivals =
     (case init_mcmc cfg ivals of
        Inl e \<Rightarrow> Some (Inl e)
      | Inr st \<Rightarrow> mcmc_from cfg smp st)"

section \<open>Two small catalogues\<close>

text \<open>
  One object on a grid of two redshift bins and two distance-modulus bins with two types
  (\<open>grid22\<close>, and \<open>grid22u\<close> with distance-modulus bins of unequal width),
  and one object on a grid of three redshift bins and two distance-modulus bins with one
  type (\<open>grid32\<close>); all log-densities are 0. \<open>toy_distmod\<close> stands for the distance modulus of
  a cosmology in the examples.
\<close>

definition grid22 :: sim_info where
  "grid22 =
     \<lparr>si_types = [''Ia'', ''II''],
      si_z_bins = [0, 1 / 2, 1],
      si_mu_bins = [42, 44, 46],
      si_interim_ln_posteriors = [[[[0, 0], [0, 0]], [[0, 0], [0, 0]]]],
      si_interim_ln_prior = [[[0, 0], [0, 0]], [[0, 0], [0, 0]]],
      si_ln_selection_function = [[[0, 0], [0, 0]], [[0, 0], [0, 0]]]\<rparr>"

definition grid32 :: sim_info where
  "grid32 =
     \<lparr>si_types = [''Ia''],
      si_z_bins = [0, 1 / 2, 1, 3 / 2],
      si_mu_bins = [42, 44, 46],
      si_interim_ln_posteriors = [[[[0, 0], [0, 0], [0, 0]]]],
      si_interim_ln_prior = [[[0, 0], [0, 0], [0, 0]]],
      si_ln_selection_function = [[[0, 0], [0, 0], [0, 0]]]\<rparr>"

definition grid22u :: sim_info where
  "grid22u =
     \<lparr>si_types = [''Ia'', ''II''],
      si_z_bins = [0, 1 / 2, 1],
      si_mu_bins = [40, 45, 47],
      si_interim_ln_posteriors = [[[[0, 0], [0, 0]], [[0, 0], [0, 0]]]],
      si_interim_ln_prior = [[[0, 0], [0, 0]], [[0, 0], [0, 0]]],
      si_ln_selection_function = [[[0, 0], [0, 0]], [[0, 0], [0, 0]]]\<rparr>"

definition toy_distmod :: "real \<Rightarrow> real \<Rightarrow> real \<Rightarrow> real" where
  "toy_distmod H0 Om0 z = 40 + 5 * z"

definition toy_dists :: "(real \<Rightarrow> real) list" where
  "toy_dists = [(\<lambda>x. - (((x - 70) / 4) ^ 2) / 2), (\<lambda>x. - (((x - 3 / 10) * 20) ^ 2) / 2)]"

definition env22 :: env where
  "env22 = load grid22 toy_dists"

definition env32 :: env where
  "env32 = load grid32 toy_dists"

definition env22u :: env where
  "env22u = load grid22u toy_dists"

section \<open>Two small runs of the sampler\<close>

text \<open>
  Two walkers, one parameter, three steps per burn-in epoch. \<open>far_sampler\<close> returns
  an epoch whose walkers stay apart, \<open>near_sampler\<close> one whose walkers overlap;
  \<open>far_chain\<close> and \<open>near_chain\<close> are the cumulative chains after the first
  epoch from the start positions 5 and 5. With \<open>stuck_sampler\<close> every walker
  stays where it starts, and \<open>stuck_chain\<close> is the cumulative chain after its first
  epoch. \<open>lone_chain\<close> is a chain of one walker.
\<close>

definition toy_cfg :: config where
  "toy_cfg = \<lparr>nwalkers = 2, nsteps = 1, ninit = 3, gr_limit = 12 / 10\<rparr>"

definition far_sampler :: sampler where
  "far_sampler k ivals n =
     (if n = 3 then [[[5], [0], [16]], [[5], [31], [47]]] else map (replicate n) ivals)"

definition near_sampler :: sampler where
  "near_sampler k ivals n =
     (if n = 3 then [[[5], [0], [4]], [[5], [1], [5]]] else map (replicate n) ivals)"

definition far_chain :: arr3 where
  "far_chain = [[[5], [5], [0], [16]], [[5], [5], [31], [47]]]"

definition near_chain :: arr3 where
  "near_chain = [[[5], [5], [0], [4]], [[5], [5], [1], [5]]]"

definition stuck_sampler :: sampler where
  "stuck_sampler k ivals n = map (replicate n) ivals"

definition stuck_chain :: arr3 where
  "stuck_chain = [[[5], [5], [5], [5]], [[5], [5], [5], [5]]]"

definition lone_chain :: arr3 where
  "lone_chain = [[[1], [2], [3], [4]]]"

text \<open>The state of the driver when it enters the loop from the start positions 5 and 5.\<close>

definition toy_start :: mcmc where
  "toy_start = \<lparr>burn_ins = 0, burning_in = True, vals = [[5], [5]],
                 full_chain = [[[5]], [[5]]]\<rparr>"

section \<open>The frame of safe\_log and reg\_vals\<close>

lemma reg_val_max: "reg_val threshold a = max a threshold"
  by (simp add: reg_val_def max_def)

lemma map_reg_val_id: "map (reg_val threshold) xs = xs \<longleftrightarrow> (\<forall>a \<in> set xs. threshold \<le> a)"
  by (induction xs) (auto simp: reg_val_def)

text \<open>
  Claim C8, as the code has it. \<open>safe_log\<close> returns a new array of the same shape
  holding \<open>ln (max a threshold)\<close> and leaves every array of the store as it was.
  \<open>reg_vals\<close> returns the reference it was given; the array behind it keeps its shape
  and now holds \<open>max a threshold\<close> entry by entry; every other array is as it was. The
  caller's array is as it was exactly when no entry was below the threshold.
\<close>

theorem safe_log_reg_vals_frame:
  assumes "arr < length s"
  shows "fst (safe_log arr threshold s) = length s
       \<and> length (snd (safe_log arr threshold s)) = Suc (length s)
       \<and> (\<forall>p < length s. snd (safe_log arr threshold s) ! p = s ! p)
       \<and> shape (snd (safe_log arr threshold s) ! length s) = shape (s ! arr)
       \<and> flat (snd (safe_log arr threshold s) ! length s) =
           map (\<lambda>a. ln (max a threshold)) (flat (s ! arr))
       \<and> fst (reg_vals arr threshold s) = arr
       \<and> length (snd (reg_vals arr threshold s)) = length s
       \<and> (\<forall>p < length s. p \<noteq> arr \<longrightarrow> snd (reg_vals arr threshold s) ! p = s ! p)
       \<and> shape (snd (reg_vals arr threshold s) ! arr) = shape (s ! arr)
       \<and> flat (snd (reg_vals arr threshold s) ! arr) =
           map (\<lambda>a. max a threshold) (flat (s ! arr))
       \<and> (snd (reg_vals arr threshold s) ! arr = s ! arr
            \<longleftrightarrow> (\<forall>a \<in> set (flat (s ! arr)). threshold \<le> a))"
proof -
  have sl: "snd (safe_log arr threshold s) =
      s @ [\<lparr>shape = shape (s ! arr), flat = map (safe_log_elem threshold) (flat (s ! arr))\<rparr>]"
    by (simp add: safe_log_def Let_def)
  have rv: "snd (reg_vals arr threshold s) ! arr =
      (s ! arr)\<lparr>flat := map (reg_val threshold) (flat (s ! arr))\<rparr>"
    using assms by (simp add: reg_vals_def)
  have m: "map (reg_val threshold) (flat (s ! arr)) = map (\<lambda>a. max a threshold) (flat (s ! arr))"
    by (simp add: reg_val_max)
  have same: "(s ! arr)\<lparr>flat := map (reg_val threshold) (flat (s ! arr))\<rparr> = s ! arr
      \<longleftrightarrow> map (reg_val threshold) (flat (s ! arr)) = flat (s ! arr)"
    by (cases "s ! arr") auto
  have a1: "fst (safe_log arr threshold s) = length s"
    by (simp add: safe_log_def Let_def)
  have a2: "length (snd (safe_log arr threshold s)) = Suc (length s)"
    by (simp add: sl)
  have a3: "\<forall>p < length s. snd (safe_log arr threshold s) ! p = s ! p"
    by (simp add: sl nth_append)
  have a4: "shape (snd (safe_log arr threshold s) ! length s) = shape (s ! arr)"
    by (simp add: sl)
  have a5: "flat (snd (safe_log arr threshold s) ! length s) =
      map (\<lambda>a. ln (max a threshold)) (flat (s ! arr))"
    by (simp add: sl safe_log_elem_def)
  have b1: "fst (reg_vals arr threshold s) = arr"
    by (simp add: reg_vals_def)
  have b2: "length (snd (reg_vals arr threshold s)) = length s"
    by (simp add: reg_vals_def)
  have b3: "\<forall>p < length s. p \<noteq> arr \<longrightarrow> snd (reg_vals arr threshold s) ! p = s ! p"
    by (simp add: reg_vals_def)
  have b4: "shape (snd (reg_vals arr threshold s) ! arr) = shape (s ! arr)"
    by (simp add: rv)
  have b5: "flat (snd (reg_vals arr threshold s) ! arr) =
      map (\<lambda>a. max a threshold) (flat (s ! arr))"
    by (simp add: rv m)
  have b6: "snd (reg_vals arr threshold s) ! arr = s ! arr
      \<longleftrightarrow> (\<forall>a \<in> set (flat (s ! arr)). threshold \<le> a)"
    by (simp only: rv same map_reg_val_id)
  from a1 a2 a3 a4 a5 b1 b2 b3 b4 b5 b6 show ?thesis by blast
qed

theorem safe_log_reg_vals_frame_witness:
  "(0::nat) < length [\<lparr>shape = [2], flat = [- 2000, 3]\<rparr>]
   \<and> snd (safe_log 0 epsilon [\<lparr>shape = [2], flat = [- 2000, 3]\<rparr>]) ! 0
       = \<lparr>shape = [2], flat = [- 2000, 3]\<rparr>
   \<and> fst (reg_vals 0 log_epsilon [\<lparr>shape = [2], flat = [- 2000, 3]\<rparr>]) = 0
   \<and> flat (snd (reg_vals 0 log_epsilon [\<lparr>shape = [2], flat = [- 2000, 3]\<rparr>]) ! 0)
       = [- 1021, 3]"
  using safe_log_reg_vals_frame [of 0 "[\<lparr>shape = [2], flat = [- 2000, 3]\<rparr>]" epsilon]
    safe_log_reg_vals_frame [of 0 "[\<lparr>shape = [2], flat = [- 2000, 3]\<rparr>]" log_epsilon]
  by (simp add: log_epsilon_def)

text \<open>
  Claim C8 as the specification words it (calling \<open>reg_vals\<close> leaves the caller's
  array unchanged) fails on an array with an entry below the floor.
\<close>

theorem reg_vals_mutates_counterexample:
  "snd (reg_vals 0 log_epsilon [\<lparr>shape = [2], flat = [- 2000, 3]\<rparr>]) ! 0
     \<noteq> [\<lparr>shape = [2], flat = [- 2000, 3]\<rparr>] ! 0"
  by (simp add: reg_vals_def reg_val_def log_epsilon_def)

section \<open>Binary search and the one-hot rows\<close>

lemma bisect_loop_bounds:
  "lo \<le> hi \<Longrightarrow> lo \<le> bisect_loop a x lo hi \<and> bisect_loop a x lo hi \<le> hi"
proof (induction a x lo hi rule: bisect_loop.induct)
  case (1 a x lo hi)
  show ?case
  proof (cases "lo < hi")
    case False
    with "1.prems" show ?thesis by (simp add: bisect_loop.simps)
  next
    case True
    let ?mid = "(lo + hi) div 2"
    from True have m: "lo \<le> ?mid" "?mid < hi" by auto
    show ?thesis
    proof (cases "x < a ! ?mid")
      case T2: True
      from "1.IH"(1)[OF True refl T2] m have "lo \<le> bisect_loop a x lo ?mid \<and> bisect_loop a x lo ?mid \<le> ?mid" by simp
      with True T2 m show ?thesis by (subst (1 2) bisect_loop.simps) (simp add: Let_def)
    next
      case F2: False
      from "1.IH"(2)[OF True refl F2] m have "?mid + 1 \<le> bisect_loop a x (?mid + 1) hi \<and> bisect_loop a x (?mid + 1) hi \<le> hi" by simp
      with True F2 m show ?thesis by (subst (1 2) bisect_loop.simps) (simp add: Let_def)
    qed
  qed
qed

lemma bisect_le: "bisect a x \<le> length a"
  using bisect_loop_bounds[of 0 "length a" a x] by (simp add: bisect_def)

text \<open>
  On a sorted list every entry left of the insertion point is at most \<open>x\<close> and every
  entry from it on is greater.
\<close>

lemma bisect_loop_sorted:
  assumes "sorted a" "lo \<le> hi" "hi \<le> length a"
    "\<forall>i < lo. a ! i \<le> x" "\<forall>i. hi \<le> i \<and> i < length a \<longrightarrow> x < a ! i"
  shows "(\<forall>i < bisect_loop a x lo hi. a ! i \<le> x) \<and> (\<forall>i. bisect_loop a x lo hi \<le> i \<and> i < length a \<longrightarrow> x < a ! i)"
  using assms
proof (induction a x lo hi rule: bisect_loop.induct)
  case (1 a x lo hi)
  show ?case
  proof (cases "lo < hi")
    case False
    with "1.prems" have "lo = hi" by simp
    with "1.prems" False show ?thesis by (subst (1 2) bisect_loop.simps) simp
  next
    case True
    let ?mid = "(lo + hi) div 2"
    from True have m: "lo \<le> ?mid" "?mid < hi" by auto
    show ?thesis
    proof (cases "x < a ! ?mid")
      case T2: True
      have up: "\<forall>i. ?mid \<le> i \<and> i < length a \<longrightarrow> x < a ! i"
      proof (intro allI impI)
        fix i assume "?mid \<le> i \<and> i < length a"
        then have "a ! ?mid \<le> a ! i" using "1.prems"(1) by (simp add: sorted_nth_mono)
        with T2 show "x < a ! i" by simp
      qed
      from "1.IH"(1)[OF True refl T2 "1.prems"(1) m(1) _ "1.prems"(4) up] m "1.prems"(3)
      have "(\<forall>i < bisect_loop a x lo ?mid. a ! i \<le> x) \<and> (\<forall>i. bisect_loop a x lo ?mid \<le> i \<and> i < length a \<longrightarrow> x < a ! i)" by simp
      with True T2 show ?thesis by (subst (1 2) bisect_loop.simps) (simp add: Let_def)
    next
      case F2: False
      have lowr: "\<forall>i < ?mid + 1. a ! i \<le> x"
      proof (intro allI impI)
        fix i assume "i < ?mid + 1"
        then have "a ! i \<le> a ! ?mid" using "1.prems"(1,3) m by (simp add: sorted_nth_mono)
        with F2 show "a ! i \<le> x" by simp
      qed
      from "1.IH"(2)[OF True refl F2 "1.prems"(1) _ "1.prems"(3) lowr "1.prems"(5)] m
      have "(\<forall>i < bisect_loop a x (?mid + 1) hi. a ! i \<le> x) \<and> (\<forall>i. bisect_loop a x (?mid + 1) hi \<le> i \<and> i < length a \<longrightarrow> x < a ! i)" by simp
      with True F2 show ?thesis by (subst (1 2) bisect_loop.simps) (simp add: Let_def)
    qed
  qed
qed

lemma bisect_sorted:
  assumes "sorted a"
  shows "(\<forall>i < bisect a x. a ! i \<le> x) \<and> (\<forall>i. bisect a x \<le> i \<and> i < length a \<longrightarrow> x < a ! i)"
  using bisect_loop_sorted[OF assms, of 0 "length a" x] by (simp add: bisect_def)

lemma bin_of_less:
  assumes "0 < n_mus g" "length (mu_bins g) = n_mus g + 1"
  shows "bin_of g mu < n_mus g"
proof -
  have "bisect (butlast (mu_bins g)) mu \<le> n_mus g"
    using bisect_le[of "butlast (mu_bins g)" mu] assms by simp
  with assms show ?thesis by (auto simp: bin_of_def Let_def)
qed

lemma mu_vector_eq:
  assumes "0 < n_mus g" "length (mu_bins g) = n_mus g + 1"
  shows "mu_vector g mu = Inr (one_hot (n_mus g) (bin_of g mu))"
proof -
  let ?b = "bisect (butlast (mu_bins g)) mu"
  have le: "?b \<le> n_mus g"
    using bisect_le[of "butlast (mu_bins g)" mu] assms by simp
  have "py_index (n_mus g) (int ?b - 1) = Inr (bin_of g mu)"
    using le assms(1) by (auto simp: py_index_def bin_of_def Let_def nat_diff_distrib)
  moreover have "bin_of g mu < n_mus g" using assms by (rule bin_of_less)
  ultimately show ?thesis
    by (simp add: mu_vector_def Let_def one_hot_def)
qed

lemma mu_rows_eq:
  assumes "0 < n_mus g" "length (mu_bins g) = n_mus g + 1"
  shows "mu_rows g mus = Inr (map (\<lambda>mu. one_hot (n_mus g) (bin_of g mu)) mus)"
  by (induction mus) (simp_all add: mu_vector_eq[OF assms])

lemma mu_binner_eq:
  assumes "0 < n_mus g" "length (mu_bins g) = n_mus g + 1"
  shows "mu_binner g mus =
    Inr (replicate (n_types g) (map (\<lambda>mu. one_hot (n_mus g) (bin_of g mu)) mus))"
  by (simp add: mu_binner_def mu_rows_eq[OF assms])

lemma count_list_replicate:
  "count_list (replicate n x) y = (if x = y then n else 0)"
  by (induction n) auto

lemma one_hot_split:
  "k < n \<Longrightarrow> one_hot n k = replicate k 0 @ 1 # replicate (n - Suc k) 0"
  by (simp add: one_hot_def upd_conv_take_nth_drop)

lemma one_hot_counts:
  assumes "k < n"
  shows "length (one_hot n k) = n" "count_list (one_hot n k) 1 = 1"
    "count_list (one_hot n k) 0 = n - 1" "one_hot n k ! k = 1"
    "\<forall>j < n. j \<noteq> k \<longrightarrow> one_hot n k ! j = 0"
  using assms by (simp_all add: one_hot_split count_list_replicate nth_append)

lemma bin_of_below:
  assumes "sorted (mu_bins g)" "length (mu_bins g) = n_mus g + 1" "mu < mu_bins g ! 0"
  shows "bin_of g mu = n_mus g - 1"
proof -
  let ?a = "butlast (mu_bins g)"
  have sa: "sorted ?a" using assms(1) by (simp add: sorted_butlast)
  have "bisect ?a mu = 0"
  proof (rule ccontr)
    assume "bisect ?a mu \<noteq> 0"
    then have "0 < bisect ?a mu" by simp
    with bisect_sorted[OF sa, of mu] have "?a ! 0 \<le> mu" by blast
    moreover have "0 < length ?a" using \<open>0 < bisect ?a mu\<close> bisect_le[of ?a mu] by simp
    then have "?a ! 0 = mu_bins g ! 0" by (simp add: nth_butlast)
    ultimately show False using assms(3) by simp
  qed
  then show ?thesis by (simp add: bin_of_def)
qed

lemma bin_of_above:
  assumes "sorted (mu_bins g)" "0 < n_mus g" "length (mu_bins g) = n_mus g + 1"
     "mu_bins g ! n_mus g \<le> mu"
  shows "bin_of g mu = n_mus g - 1"
proof -
  let ?a = "butlast (mu_bins g)"
  have sa: "sorted ?a" using assms(1) by (simp add: sorted_butlast)
  have la: "length ?a = n_mus g" using assms(3) by simp
  have "bisect ?a mu = n_mus g"
  proof (rule ccontr)
    assume "bisect ?a mu \<noteq> n_mus g"
    with bisect_le[of ?a mu] la have lt: "bisect ?a mu < n_mus g" by simp
    with bisect_sorted[OF sa, of mu] la have "mu < ?a ! (n_mus g - 1)"
      using assms(2) by (metis One_nat_def Suc_pred le_simps(2) lessI)
    moreover have "?a ! (n_mus g - 1) = mu_bins g ! (n_mus g - 1)"
      using la assms(2) by (simp add: nth_butlast)
    moreover have "mu_bins g ! (n_mus g - 1) \<le> mu_bins g ! n_mus g"
      using assms(1,3) by (simp add: sorted_nth_mono)
    ultimately show False using assms(4) by simp
  qed
  with assms(2) show ?thesis by (simp add: bin_of_def)
qed

text \<open>
  Claim C9. On a grid with at least one distance-modulus bin, \<open>mu_binner\<close> returns
  for every list of distance moduli, without raising, an array of \<open>n_types\<close> slices
  with one row per modulus and \<open>n_mus\<close> entries per row; every row holds exactly one
  1 and is 0 elsewhere. On sorted bin edges a modulus below the first edge marks the last
  bin (the index is \<open>-1\<close>), and so does a modulus at or above the last edge.
\<close>

theorem mu_binner_one_hot:
  assumes "0 < n_mus g" and "length (mu_bins g) = n_mus g + 1"
  shows "\<exists>delta. mu_binner g mus = Inr delta \<and> length delta = n_types g
     \<and> (\<forall>t < n_types g. length (delta ! t) = length mus
          \<and> (\<forall>i < length mus.
                length (delta ! t ! i) = n_mus g
              \<and> count_list (delta ! t ! i) 1 = 1
              \<and> count_list (delta ! t ! i) 0 = n_mus g - 1
              \<and> (sorted (mu_bins g) \<and> mus ! i < mu_bins g ! 0
                   \<longrightarrow> delta ! t ! i ! (n_mus g - 1) = 1)
              \<and> (sorted (mu_bins g) \<and> mu_bins g ! n_mus g \<le> mus ! i
                   \<longrightarrow> delta ! t ! i ! (n_mus g - 1) = 1)))"
proof -
  let ?row = "\<lambda>mu. one_hot (n_mus g) (bin_of g mu)"
  let ?delta = "replicate (n_types g) (map ?row mus)"
  have eq: "mu_binner g mus = Inr ?delta" using assms by (rule mu_binner_eq)
  have rows: "\<forall>t < n_types g. \<forall>i < length mus. ?delta ! t ! i = ?row (mus ! i)" by simp
  have lt: "\<And>mu. bin_of g mu < n_mus g" using assms by (rule bin_of_less)
  have "\<forall>t < n_types g. length (?delta ! t) = length mus
          \<and> (\<forall>i < length mus.
                length (?delta ! t ! i) = n_mus g
              \<and> count_list (?delta ! t ! i) 1 = 1
              \<and> count_list (?delta ! t ! i) 0 = n_mus g - 1
              \<and> (sorted (mu_bins g) \<and> mus ! i < mu_bins g ! 0
                   \<longrightarrow> ?delta ! t ! i ! (n_mus g - 1) = 1)
              \<and> (sorted (mu_bins g) \<and> mu_bins g ! n_mus g \<le> mus ! i
                   \<longrightarrow> ?delta ! t ! i ! (n_mus g - 1) = 1))"
  proof (intro allI impI conjI)
    fix t assume "t < n_types g"
    then show "length (?delta ! t) = length mus" by simp
  next
    fix t i assume ti: "t < n_types g" "i < length mus"
    then have r: "?delta ! t ! i = ?row (mus ! i)" by simp
    show "length (?delta ! t ! i) = n_mus g" unfolding r by (rule one_hot_counts(1)[OF lt])
    show "count_list (?delta ! t ! i) 1 = 1" unfolding r by (rule one_hot_counts(2)[OF lt])
    show "count_list (?delta ! t ! i) 0 = n_mus g - 1" unfolding r by (rule one_hot_counts(3)[OF lt])
    { assume "sorted (mu_bins g) \<and> mus ! i < mu_bins g ! 0"
      then have "bin_of g (mus ! i) = n_mus g - 1" using assms(2) by (simp add: bin_of_below)
      then show "?delta ! t ! i ! (n_mus g - 1) = 1"
        unfolding r using one_hot_counts(4)[OF lt, of "mus ! i"] by simp }
    { assume "sorted (mu_bins g) \<and> mu_bins g ! n_mus g \<le> mus ! i"
      then have "bin_of g (mus ! i) = n_mus g - 1" using assms by (simp add: bin_of_above)
      then show "?delta ! t ! i ! (n_mus g - 1) = 1"
        unfolding r using one_hot_counts(4)[OF lt, of "mus ! i"] by simp }
  qed
  with eq show ?thesis by (intro exI[of _ ?delta]) simp
qed

section \<open>The two small catalogues, evaluated\<close>

lemma env22_fields:
  "n_SNe env22 = 1" "n_types env22 = 2" "n_zs env22 = 2" "n_mus env22 = 2"
  "z_bins env22 = [0, 1 / 2, 1]" "mu_bins env22 = [42, 44, 46]"
  "z_difs env22 = [1 / 2, 1 / 2]" "z_mids env22 = [1 / 4, 3 / 4]" "mu_difs env22 = [2, 2]"
  by (simp_all add: env22_def load_def grid22_def len_hd_def z_difs_def z_mids_def mu_difs_def
      difs_def mids_def Let_def)

lemma env32_fields:
  "n_SNe env32 = 1" "n_types env32 = 1" "n_zs env32 = 3" "n_mus env32 = 2"
  "z_bins env32 = [0, 1 / 2, 1, 3 / 2]" "mu_bins env32 = [42, 44, 46]"
  "z_difs env32 = [1 / 2, 1 / 2, 1 / 2]" "z_mids env32 = [1 / 4, 3 / 4, 5 / 4]" "mu_difs env32 = [2, 2]"
  by (simp_all add: env32_def load_def grid32_def len_hd_def z_difs_def z_mids_def mu_difs_def
      difs_def mids_def Let_def)

theorem mu_binner_one_hot_witness:
  "0 < n_mus env22 \<and> length (mu_bins env22) = n_mus env22 + 1
   \<and> (\<exists>delta. mu_binner env22 [165 / 4, 175 / 4, 50] = Inr delta \<and> length delta = n_types env22
        \<and> count_list (delta ! 0 ! 0) 1 = 1 \<and> delta ! 0 ! 0 ! 1 = 1)"
proof -
  have h1: "0 < n_mus env22" and h2: "length (mu_bins env22) = n_mus env22 + 1"
    by (simp_all add: env22_fields)
  from mu_binner_one_hot [OF h1 h2, of "[165 / 4, 175 / 4, 50]"]
  obtain delta where d: "mu_binner env22 [165 / 4, 175 / 4, 50] = Inr delta"
      "length delta = n_types env22"
      "\<forall>t < n_types env22. length (delta ! t) = length [165 / 4, 175 / 4, 50 :: real]
          \<and> (\<forall>i < length [165 / 4, 175 / 4, 50 :: real].
                length (delta ! t ! i) = n_mus env22
              \<and> count_list (delta ! t ! i) 1 = 1
              \<and> count_list (delta ! t ! i) 0 = n_mus env22 - 1
              \<and> (sorted (mu_bins env22) \<and> [165 / 4, 175 / 4, 50] ! i < mu_bins env22 ! 0
                   \<longrightarrow> delta ! t ! i ! (n_mus env22 - 1) = 1)
              \<and> (sorted (mu_bins env22) \<and> mu_bins env22 ! n_mus env22 \<le> [165 / 4, 175 / 4, 50] ! i
                   \<longrightarrow> delta ! t ! i ! (n_mus env22 - 1) = 1))"
    by blast
  from d(3) have "count_list (delta ! 0 ! 0) 1 = 1 \<and> delta ! 0 ! 0 ! 1 = 1"
    by (simp add: env22_fields)
  with h1 h2 d(1,2) show ?thesis by blast
qed

lemma bin_of_inside:
  assumes "sorted (mu_bins g)" "0 < n_mus g" "length (mu_bins g) = n_mus g + 1"
    "mu_bins g ! 0 \<le> mu"
  shows "mu_bins g ! bin_of g mu \<le> mu"
    and "\<forall>j < n_mus g. mu_bins g ! j \<le> mu \<longrightarrow> j \<le> bin_of g mu"
proof -
  let ?a = "butlast (mu_bins g)"
  let ?b = "bisect ?a mu"
  have sa: "sorted ?a" using assms(1) by (simp add: sorted_butlast)
  have la: "length ?a = n_mus g" using assms(3) by simp
  have nth: "\<And>j. j < n_mus g \<Longrightarrow> ?a ! j = mu_bins g ! j"
    using la by (simp add: nth_butlast)
  have pos: "0 < ?b"
  proof (rule ccontr)
    assume "\<not> 0 < ?b"
    then have "?b = 0" by simp
    with bisect_sorted[OF sa, of mu] la assms(2) have "mu < ?a ! 0" by simp
    with nth[OF assms(2)] assms(4) show False by simp
  qed
  then have k: "bin_of g mu = ?b - 1" by (simp add: bin_of_def)
  have kb: "?b - 1 < ?b" using pos by simp
  have kn: "?b - 1 < n_mus g" using bisect_le[of ?a mu] la pos by simp
  from bisect_sorted[OF sa, of mu] kb have "?a ! (?b - 1) \<le> mu" by blast
  then show "mu_bins g ! bin_of g mu \<le> mu" using nth[OF kn] k by simp
  show "\<forall>j < n_mus g. mu_bins g ! j \<le> mu \<longrightarrow> j \<le> bin_of g mu"
  proof (intro allI impI)
    fix j assume j: "j < n_mus g" "mu_bins g ! j \<le> mu"
    have "j < ?b"
    proof (rule ccontr)
      assume "\<not> j < ?b"
      then have "?b \<le> j \<and> j < length ?a" using j(1) la by simp
      with bisect_sorted[OF sa, of mu] have "mu < ?a ! j" by blast
      with nth[OF j(1)] j(2) show False by simp
    qed
    then show "j \<le> bin_of g mu" using k by simp
  qed
qed

text \<open>
  Claim C5, as the code has it. For hyperparameters inside the box the indicator is
  \<open>cosmo_delta\<close>: one matrix of one row per redshift midpoint, repeated for every
  type. Every row, whatever the distance modulus of its midpoint, has \<open>n_mus\<close>
  entries, exactly one of them 1 and all others 0. Where the distance modulus is at or
  above the first bin edge, the bin marked is the last one whose lower edge is at most the
  distance modulus (the nearest lower edge below it, found by the bisection); a modulus
  at or beyond the last edge marks the last bin.
\<close>

theorem cosmo_delta_lower_edge:
  assumes "sorted (mu_bins g)" and "0 < n_mus g" and "length (mu_bins g) = n_mus g + 1"
  shows "\<exists>matrix. cosmo_delta g distmod h = Inr (replicate (n_types g) matrix)
     \<and> length matrix = length (z_mids g)
     \<and> (\<forall>i < length (z_mids g).
           length (matrix ! i) = n_mus g
         \<and> count_list (matrix ! i) 1 = 1
         \<and> count_list (matrix ! i) 0 = n_mus g - 1
         \<and> (\<exists>k < n_mus g.
               matrix ! i ! k = 1
             \<and> (\<forall>j < n_mus g. j \<noteq> k \<longrightarrow> matrix ! i ! j = 0)
             \<and> (mu_bins g ! 0 \<le> distmod (h ! 0) (h ! 1) (z_mids g ! i) \<longrightarrow>
                   mu_bins g ! k \<le> distmod (h ! 0) (h ! 1) (z_mids g ! i)
                 \<and> (\<forall>j < n_mus g. mu_bins g ! j \<le> distmod (h ! 0) (h ! 1) (z_mids g ! i)
                       \<longrightarrow> j \<le> k \<and> mu_bins g ! j \<le> mu_bins g ! k))
             \<and> (mu_bins g ! n_mus g \<le> distmod (h ! 0) (h ! 1) (z_mids g ! i) \<longrightarrow>
                   k = n_mus g - 1)))"
proof -
  let ?mus = "map (distmod (h ! 0) (h ! 1)) (z_mids g)"
  let ?matrix = "map (\<lambda>mu. one_hot (n_mus g) (bin_of g mu)) ?mus"
  have eq: "cosmo_delta g distmod h = Inr (replicate (n_types g) ?matrix)"
    unfolding cosmo_delta_def using assms(2,3) by (rule mu_binner_eq)
  have lt: "\<And>mu. bin_of g mu < n_mus g" using assms(2,3) by (rule bin_of_less)
  have rows: "\<forall>i < length (z_mids g).
           length (?matrix ! i) = n_mus g
         \<and> count_list (?matrix ! i) 1 = 1
         \<and> count_list (?matrix ! i) 0 = n_mus g - 1
         \<and> (\<exists>k < n_mus g.
               ?matrix ! i ! k = 1
             \<and> (\<forall>j < n_mus g. j \<noteq> k \<longrightarrow> ?matrix ! i ! j = 0)
             \<and> (mu_bins g ! 0 \<le> distmod (h ! 0) (h ! 1) (z_mids g ! i) \<longrightarrow>
                   mu_bins g ! k \<le> distmod (h ! 0) (h ! 1) (z_mids g ! i)
                 \<and> (\<forall>j < n_mus g. mu_bins g ! j \<le> distmod (h ! 0) (h ! 1) (z_mids g ! i)
                       \<longrightarrow> j \<le> k \<and> mu_bins g ! j \<le> mu_bins g ! k))
             \<and> (mu_bins g ! n_mus g \<le> distmod (h ! 0) (h ! 1) (z_mids g ! i) \<longrightarrow>
                   k = n_mus g - 1))"
  proof (intro allI impI)
    fix i assume i: "i < length (z_mids g)"
    let ?mu = "distmod (h ! 0) (h ! 1) (z_mids g ! i)"
    let ?k = "bin_of g ?mu"
    have r: "?matrix ! i = one_hot (n_mus g) ?k" using i by simp
    have len: "length (?matrix ! i) = n_mus g"
      unfolding r by (rule one_hot_counts(1)[OF lt])
    have c1: "count_list (?matrix ! i) 1 = 1"
      unfolding r by (rule one_hot_counts(2)[OF lt])
    have c0: "count_list (?matrix ! i) 0 = n_mus g - 1"
      unfolding r by (rule one_hot_counts(3)[OF lt])
    have at_k: "?matrix ! i ! ?k = 1"
      unfolding r by (rule one_hot_counts(4)[OF lt])
    have off_k: "\<forall>j < n_mus g. j \<noteq> ?k \<longrightarrow> ?matrix ! i ! j = 0"
      unfolding r by (rule one_hot_counts(5)[OF lt])
    have inside: "mu_bins g ! 0 \<le> ?mu \<longrightarrow>
        mu_bins g ! ?k \<le> ?mu
      \<and> (\<forall>j < n_mus g. mu_bins g ! j \<le> ?mu \<longrightarrow> j \<le> ?k \<and> mu_bins g ! j \<le> mu_bins g ! ?k)"
    proof
      assume ins: "mu_bins g ! 0 \<le> ?mu"
      have edge: "mu_bins g ! ?k \<le> ?mu"
        and great: "\<forall>j < n_mus g. mu_bins g ! j \<le> ?mu \<longrightarrow> j \<le> ?k"
        using bin_of_inside[OF assms ins] by blast+
      have mono: "\<forall>j < n_mus g. mu_bins g ! j \<le> ?mu
          \<longrightarrow> j \<le> ?k \<and> mu_bins g ! j \<le> mu_bins g ! ?k"
      proof (intro allI impI)
        fix j assume j: "j < n_mus g" "mu_bins g ! j \<le> ?mu"
        with great have jk: "j \<le> ?k" by blast
        moreover have "?k < length (mu_bins g)" using lt[of ?mu] assms(3) by simp
        ultimately have "mu_bins g ! j \<le> mu_bins g ! ?k"
          using assms(1) by (simp add: sorted_nth_mono)
        with jk show "j \<le> ?k \<and> mu_bins g ! j \<le> mu_bins g ! ?k" by simp
      qed
      from edge mono show "mu_bins g ! ?k \<le> ?mu
        \<and> (\<forall>j < n_mus g. mu_bins g ! j \<le> ?mu \<longrightarrow> j \<le> ?k \<and> mu_bins g ! j \<le> mu_bins g ! ?k)"
        by (rule conjI)
    qed
    have above: "mu_bins g ! n_mus g \<le> ?mu \<longrightarrow> ?k = n_mus g - 1"
      using bin_of_above[OF assms] by blast
    have "\<exists>k < n_mus g.
               ?matrix ! i ! k = 1
             \<and> (\<forall>j < n_mus g. j \<noteq> k \<longrightarrow> ?matrix ! i ! j = 0)
             \<and> (mu_bins g ! 0 \<le> ?mu \<longrightarrow>
                   mu_bins g ! k \<le> ?mu
                 \<and> (\<forall>j < n_mus g. mu_bins g ! j \<le> ?mu
                       \<longrightarrow> j \<le> k \<and> mu_bins g ! j \<le> mu_bins g ! k))
             \<and> (mu_bins g ! n_mus g \<le> ?mu \<longrightarrow> k = n_mus g - 1)"
      using lt[of ?mu] at_k off_k inside above by (intro exI[of _ ?k]) (intro conjI)
    with len c1 c0
    show "length (?matrix ! i) = n_mus g
         \<and> count_list (?matrix ! i) 1 = 1
         \<and> count_list (?matrix ! i) 0 = n_mus g - 1
         \<and> (\<exists>k < n_mus g.
               ?matrix ! i ! k = 1
             \<and> (\<forall>j < n_mus g. j \<noteq> k \<longrightarrow> ?matrix ! i ! j = 0)
             \<and> (mu_bins g ! 0 \<le> ?mu \<longrightarrow>
                   mu_bins g ! k \<le> ?mu
                 \<and> (\<forall>j < n_mus g. mu_bins g ! j \<le> ?mu
                       \<longrightarrow> j \<le> k \<and> mu_bins g ! j \<le> mu_bins g ! k))
             \<and> (mu_bins g ! n_mus g \<le> ?mu \<longrightarrow> k = n_mus g - 1))"
      by (intro conjI)
  qed
  have len: "length ?matrix = length (z_mids g)" by simp
  from eq len rows show ?thesis by (intro exI[of _ ?matrix] conjI)
qed

lemma cosmo_delta_env22:
  "cosmo_delta env22 toy_distmod [70, 3 / 10] = Inr [[[0, 1], [1, 0]], [[0, 1], [1, 0]]]"
  by (simp add: cosmo_delta_def mu_binner_def mu_vector_def env22_fields py_index_def bisect_def
      bisect_loop.simps Let_def numeral_2_eq_2 toy_distmod_def)

theorem cosmo_delta_lower_edge_witness:
  "sorted (mu_bins env22) \<and> 0 < n_mus env22 \<and> length (mu_bins env22) = n_mus env22 + 1
   \<and> \<not> mu_bins env22 ! 0 \<le> toy_distmod 70 (3 / 10) (z_mids env22 ! 0)
   \<and> mu_bins env22 ! 0 \<le> toy_distmod 70 (3 / 10) (z_mids env22 ! 1)
   \<and> (\<exists>matrix. cosmo_delta env22 toy_distmod [70, 3 / 10] = Inr (replicate (n_types env22) matrix)
        \<and> count_list (matrix ! 0) 1 = 1 \<and> count_list (matrix ! 0) 0 = 1
        \<and> count_list (matrix ! 1) 1 = 1 \<and> count_list (matrix ! 1) 0 = 1
        \<and> (\<exists>k < n_mus env22. matrix ! 1 ! k = 1
              \<and> mu_bins env22 ! k \<le> toy_distmod 70 (3 / 10) (z_mids env22 ! 1)))"
proof -
  have h1: "sorted (mu_bins env22)" and h2: "0 < n_mus env22"
    and h3: "length (mu_bins env22) = n_mus env22 + 1"
    and h0: "\<not> mu_bins env22 ! 0 \<le> toy_distmod 70 (3 / 10) (z_mids env22 ! 0)"
    and h4: "mu_bins env22 ! 0 \<le> toy_distmod 70 (3 / 10) (z_mids env22 ! 1)"
    and i: "0 < length (z_mids env22)" "1 < length (z_mids env22)"
    and n: "n_mus env22 - 1 = 1"
    by (simp_all add: env22_fields toy_distmod_def)
  from cosmo_delta_lower_edge [OF h1 h2 h3, of toy_distmod "[70, 3 / 10]"]
  obtain matrix where m:
    "cosmo_delta env22 toy_distmod [70, 3 / 10] = Inr (replicate (n_types env22) matrix)"
    "\<forall>i < length (z_mids env22).
           length (matrix ! i) = n_mus env22
         \<and> count_list (matrix ! i) 1 = 1
         \<and> count_list (matrix ! i) 0 = n_mus env22 - 1
         \<and> (\<exists>k < n_mus env22.
               matrix ! i ! k = 1
             \<and> (\<forall>j < n_mus env22. j \<noteq> k \<longrightarrow> matrix ! i ! j = 0)
             \<and> (mu_bins env22 ! 0 \<le> toy_distmod ([70, 3 / 10] ! 0) ([70, 3 / 10] ! 1) (z_mids env22 ! i) \<longrightarrow>
                   mu_bins env22 ! k \<le> toy_distmod ([70, 3 / 10] ! 0) ([70, 3 / 10] ! 1) (z_mids env22 ! i)
                 \<and> (\<forall>j < n_mus env22. mu_bins env22 ! j \<le> toy_distmod ([70, 3 / 10] ! 0) ([70, 3 / 10] ! 1) (z_mids env22 ! i)
                       \<longrightarrow> j \<le> k \<and> mu_bins env22 ! j \<le> mu_bins env22 ! k))
             \<and> (mu_bins env22 ! n_mus env22 \<le> toy_distmod ([70, 3 / 10] ! 0) ([70, 3 / 10] ! 1) (z_mids env22 ! i) \<longrightarrow>
                   k = n_mus env22 - 1))"
    by blast
  from m(2) i(1) n have r0: "count_list (matrix ! 0) 1 = 1 \<and> count_list (matrix ! 0) 0 = 1"
    by auto
  from m(2) i(2) n have r1: "count_list (matrix ! 1) 1 = 1 \<and> count_list (matrix ! 1) 0 = 1"
    by auto
  from m(2) i(2) h4 have e1: "\<exists>k < n_mus env22. matrix ! 1 ! k = 1
      \<and> mu_bins env22 ! k \<le> toy_distmod 70 (3 / 10) (z_mids env22 ! 1)"
    by auto
  from h1 h2 h3 h0 h4 m(1) r0 r1 e1 show ?thesis by blast
qed

text \<open>
  Claim C5 as the specification words it, for every redshift midpoint, fails where the
  distance modulus lies below the first bin edge: no bin edge is below it, and the row
  marks the last bin, whose lower edge is above it.
\<close>

theorem cosmo_delta_below_grid_counterexample:
  "param_check [70, 3 / 10] = Inr True
   \<and> cosmo_delta env22 toy_distmod [70, 3 / 10] = Inr [[[0, 1], [1, 0]], [[0, 1], [1, 0]]]
   \<and> \<not> mu_bins env22 ! 1 \<le> toy_distmod 70 (3 / 10) (z_mids env22 ! 0)
   \<and> \<not> mu_bins env22 ! 0 \<le> toy_distmod 70 (3 / 10) (z_mids env22 ! 0)"
  by (simp add: cosmo_delta_env22 param_check_def py_get_def min_H0_def max_H0_def min_Om0_def
      max_Om0_def env22_fields toy_distmod_def)

section \<open>The log-hyperlikelihood inside and outside the box\<close>

lemma param_check_outside:
  assumes "2 \<le> length h" "h ! 0 \<le> min_H0 \<or> max_H0 \<le> h ! 0 \<or> h ! 1 \<le> min_Om0 \<or> max_Om0 \<le> h ! 1"
  shows "param_check h = Inr False"
  using assms by (auto simp: param_check_def py_get_def)

lemma flat_load:
  "flat_lnhyperlikelihood (load sim_info dists) =
     map (map (map (\<lambda>_. ln epsilon))) (si_interim_ln_prior sim_info)"
  by (simp add: load_def Let_def safe_log3_def safe_log_elem_def comp_def)

text \<open>
  Claim C3. For every hyperparameter vector with a coordinate at or beyond one of its
  bounds, \<open>lnhyperlikelihood\<close> raises nothing and returns the array computed once at
  set-up: it has the shape of the interim prior and holds \<open>ln epsilon\<close>, the floor of
  \<open>safe_log\<close>, in every entry. The result depends neither on the bound violated nor on
  the hyperparameters nor on the distance-modulus function.
\<close>

theorem lnhyperlikelihood_out_of_bounds:
  assumes "2 \<le> length h"
    and "h ! 0 \<le> min_H0 \<or> max_H0 \<le> h ! 0 \<or> h ! 1 \<le> min_Om0 \<or> max_Om0 \<le> h ! 1"
  shows "lnhyperlikelihood (load sim_info dists) distmod h =
           Inr (flat_lnhyperlikelihood (load sim_info dists))
       \<and> flat_lnhyperlikelihood (load sim_info dists) =
           map (map (map (\<lambda>_. ln epsilon))) (si_interim_ln_prior sim_info)"
  using param_check_outside[OF assms] by (simp add: lnhyperlikelihood_def flat_load)

theorem lnhyperlikelihood_out_of_bounds_witness:
  "2 \<le> length [100, 3 / 10 :: real]
   \<and> (([100, 3 / 10] ! 0 \<le> min_H0 \<or> max_H0 \<le> [100, 3 / 10] ! 0
        \<or> [100, 3 / 10] ! 1 \<le> min_Om0 \<or> max_Om0 \<le> [100, 3 / 10 :: real] ! 1))
   \<and> lnhyperlikelihood (load grid22 toy_dists) toy_distmod [100, 3 / 10] =
        Inr [[[ln epsilon, ln epsilon], [ln epsilon, ln epsilon]],
             [[ln epsilon, ln epsilon], [ln epsilon, ln epsilon]]]
   \<and> lnhyperlikelihood (load grid22 toy_dists) toy_distmod [70, 2] =
        Inr [[[ln epsilon, ln epsilon], [ln epsilon, ln epsilon]],
             [[ln epsilon, ln epsilon], [ln epsilon, ln epsilon]]]"
  using lnhyperlikelihood_out_of_bounds [of "[100, 3 / 10]" grid22 toy_dists toy_distmod]
    lnhyperlikelihood_out_of_bounds [of "[70, 2]" grid22 toy_dists toy_distmod]
  by (simp add: max_H0_def max_Om0_def grid22_def)

lemma wf_grid32: "wf_info grid32"
  by (simp add: wf_info_def grid32_def rect3_def Let_def)

lemma broadcast32:
  "broadcast_extent (length (z_difs env32)) (length (mu_difs env32)) = Inl ValueError"
  by (simp add: env32_fields broadcast_extent_def)

section \<open>The log-posterior as the sum of the logs of the grid integrals\<close>

lemma sum_list_map_nth: "sum_list (map f xs) = (\<Sum>i < length xs. f (xs ! i))"
proof -
  have "sum_list (map f xs) = (\<Sum>i = 0..<length xs. map f xs ! i)"
    by (simp add: sum_list_sum_nth)
  also have "\<dots> = (\<Sum>i = 0..<length xs. f (xs ! i))" by (rule sum.cong) simp_all
  finally show ?thesis by (simp add: atLeast0LessThan)
qed

lemma sum_list_zip_nth:
  assumes "length xs = length ys"
  shows "(\<Sum>(x, y)\<leftarrow>zip xs ys. f x y) = (\<Sum>i < length xs. f (xs ! i) (ys ! i))"
proof -
  have "(\<Sum>(x, y)\<leftarrow>zip xs ys. f x y) = (\<Sum>i < length (zip xs ys). (\<lambda>(x, y). f x y) (zip xs ys ! i))"
    by (rule sum_list_map_nth)
  also have "\<dots> = (\<Sum>i < length xs. f (xs ! i) (ys ! i))"
    using assms by (intro sum.cong) simp_all
  finally show ?thesis .
qed

lemma rect3_nth:
  assumes "rect3 nt nz nm a"
  shows "length a = nt" "t < nt \<Longrightarrow> length (a ! t) = nz"
    "t < nt \<Longrightarrow> z < nz \<Longrightarrow> length (a ! t ! z) = nm"
proof -
  show l: "length a = nt" using assms by (simp add: rect3_def)
  { assume t: "t < nt"
    then have "a ! t \<in> set a" using l by simp
    with assms show lt: "length (a ! t) = nz" by (simp add: rect3_def)
    assume z: "z < nz"
    then have "a ! t ! z \<in> set (a ! t)" using lt by simp
    with assms \<open>a ! t \<in> set a\<close> show "length (a ! t ! z) = nm" by (simp add: rect3_def) }
qed

lemma rect3_map2:
  assumes "rect3 nt nz nm a" "rect3 nt nz nm b"
  shows "rect3 nt nz nm (map2 (map2 (map2 f)) a b)"
  unfolding rect3_def
proof (intro conjI ballI)
  show "length (map2 (map2 (map2 f)) a b) = nt" using assms by (simp add: rect3_def)
next
  fix t assume "t \<in> set (map2 (map2 (map2 f)) a b)"
  then obtain x y where xy: "(x, y) \<in> set (zip a b)" "t = map2 (map2 f) x y" by auto
  then have x: "x \<in> set a" and y: "y \<in> set b" by (auto dest: set_zip_leftD set_zip_rightD)
  with assms have lx: "length x = nz" "length y = nz" by (simp_all add: rect3_def)
  then show "length t = nz" using xy by simp
  fix r assume "r \<in> set t"
  with xy obtain u v where uv: "(u, v) \<in> set (zip x y)" "r = map2 f u v" by auto
  then have "u \<in> set x" "v \<in> set y" by (auto dest: set_zip_leftD set_zip_rightD)
  with x y assms have "length u = nm" "length v = nm" by (simp_all add: rect3_def)
  then show "length r = nm" using uv by simp
qed

lemma rect3_map3:
  assumes "rect3 nt nz nm a"
  shows "rect3 nt nz nm (map (map (map f)) a)"
  using assms by (auto simp: rect3_def)

lemma nth_map2_3:
  assumes "rect3 nt nz nm a" "rect3 nt nz nm b" "t < nt" "z < nz" "m < nm"
  shows "map2 (map2 (map2 f)) a b ! t ! z ! m = f (a ! t ! z ! m) (b ! t ! z ! m)"
  using assms rect3_nth[OF assms(1)] rect3_nth[OF assms(2)] by simp

lemma nth_map3:
  assumes "rect3 nt nz nm a" "t < nt" "z < nz" "m < nm"
  shows "map (map (map f)) a ! t ! z ! m = f (a ! t ! z ! m)"
  using assms rect3_nth[OF assms(1)] by simp

lemma length_difs: "length (difs bins) = length bins - 1"
  by (simp add: difs_def)

lemma length_mids: "length (mids bins) = length bins - 1"
  by (simp add: mids_def)

lemma in_log_obj_nth:
  assumes "rect3 (n_types g) (n_zs g) (n_mus g) c"
    and "length (z_difs g) = n_zs g" and "length (mu_difs g) = n_mus g"
  shows "in_log_obj g c =
     (\<Sum>t < n_types g. \<Sum>z < n_zs g. \<Sum>m < n_mus g.
        exp (c ! t ! z ! m) * (mu_difs g ! m) * (z_difs g ! z) / real (n_types g))"
proof -
  note r = rect3_nth[OF assms(1)]
  have inner: "(\<Sum>(e, dmu)\<leftarrow>zip (c ! t ! z) (mu_difs g). exp e * dmu) =
      (\<Sum>m < n_mus g. exp (c ! t ! z ! m) * (mu_difs g ! m))"
    if "t < n_types g" "z < n_zs g" for t z
    using sum_list_zip_nth[of "c ! t ! z" "mu_difs g" "\<lambda>e dmu. exp e * dmu"]
      r(3)[OF that] assms(3) by simp
  have middle: "(\<Sum>(row, dz)\<leftarrow>zip (c ! t) (z_difs g).
           (\<Sum>(e, dmu)\<leftarrow>zip row (mu_difs g). exp e * dmu) * dz) =
      (\<Sum>z < n_zs g. (\<Sum>m < n_mus g. exp (c ! t ! z ! m) * (mu_difs g ! m)) * (z_difs g ! z))"
    if t: "t < n_types g" for t
  proof -
    have "(\<Sum>(row, dz)\<leftarrow>zip (c ! t) (z_difs g).
           (\<Sum>(e, dmu)\<leftarrow>zip row (mu_difs g). exp e * dmu) * dz) =
      (\<Sum>z < length (c ! t). (\<Sum>(e, dmu)\<leftarrow>zip (c ! t ! z) (mu_difs g). exp e * dmu) * (z_difs g ! z))"
      using sum_list_zip_nth[of "c ! t" "z_difs g"
          "\<lambda>row dz. (\<Sum>(e, dmu)\<leftarrow>zip row (mu_difs g). exp e * dmu) * dz"]
        r(2)[OF t] assms(2) by simp
    also have "\<dots> = (\<Sum>z < n_zs g. (\<Sum>m < n_mus g. exp (c ! t ! z ! m) * (mu_difs g ! m)) * (z_difs g ! z))"
      using r(2)[OF t] inner[OF t] by (intro sum.cong) simp_all
    finally show ?thesis .
  qed
  have "in_log_obj g c =
      (\<Sum>t < length c. (\<Sum>(row, dz)\<leftarrow>zip (c ! t) (z_difs g).
           (\<Sum>(e, dmu)\<leftarrow>zip row (mu_difs g). exp e * dmu) * dz) / real (n_types g))"
    unfolding in_log_obj_def by (rule sum_list_map_nth)
  also have "\<dots> = (\<Sum>t < n_types g.
      (\<Sum>z < n_zs g. (\<Sum>m < n_mus g. exp (c ! t ! z ! m) * (mu_difs g ! m)) * (z_difs g ! z))
        / real (n_types g))"
    using r(1) middle by (intro sum.cong) simp_all
  also have "\<dots> = (\<Sum>t < n_types g. \<Sum>z < n_zs g. \<Sum>m < n_mus g.
        exp (c ! t ! z ! m) * (mu_difs g ! m) * (z_difs g ! z) / real (n_types g))"
    by (simp add: sum_divide_distrib sum_distrib_right)
  finally show ?thesis .
qed

lemma load_shape:
  assumes "wf_info sim_info"
  shows "n_SNe (load sim_info dists) = length (si_interim_ln_posteriors sim_info)"
    and "n_types (load sim_info dists) = length (si_types sim_info)"
    and "n_zs (load sim_info dists) = length (si_z_bins sim_info) - 1"
    and "n_mus (load sim_info dists) = length (si_mu_bins sim_info) - 1"
proof -
  let ?post = "si_interim_ln_posteriors sim_info"
  let ?nt = "length (si_types sim_info)"
  let ?nz = "length (si_z_bins sim_info) - 1"
  let ?nm = "length (si_mu_bins sim_info) - 1"
  from assms have pos: "0 < length ?post" "0 < ?nt" "0 < ?nz" "0 < ?nm"
    and rect: "\<forall>obj \<in> set ?post. rect3 ?nt ?nz ?nm obj"
    by (simp_all add: wf_info_def Let_def)
  from pos(1) obtain x xs where p: "?post = x # xs" by (cases ?post) auto
  with rect have rx: "rect3 ?nt ?nz ?nm x" by simp
  then have lx: "length x = ?nt" by (simp add: rect3_def)
  with pos(2) obtain y ys where x: "x = y # ys" by (cases x) auto
  with rx have ly: "length y = ?nz" and ry: "\<forall>r \<in> set y. length r = ?nm"
    by (simp_all add: rect3_def)
  with pos(3) obtain r rs where y: "y = r # rs" by (cases y) auto
  with ry have lr: "length r = ?nm" by simp
  show "n_SNe (load sim_info dists) = length ?post" by (simp add: load_def Let_def)
  show "n_types (load sim_info dists) = ?nt" using p lx by (simp add: load_def Let_def len_hd_def)
  show "n_zs (load sim_info dists) = ?nz" using p x ly by (simp add: load_def Let_def len_hd_def)
  show "n_mus (load sim_info dists) = ?nm" using p x y lr by (simp add: load_def Let_def len_hd_def)
qed

lemma load_grid:
  "z_difs (load sim_info dists) = difs (si_z_bins sim_info)"
  "z_mids (load sim_info dists) = mids (si_z_bins sim_info)"
  "mu_difs (load sim_info dists) = difs (si_mu_bins sim_info)"
  "mu_bins (load sim_info dists) = si_mu_bins sim_info"
  by (simp_all add: load_def Let_def z_difs_def z_mids_def mu_difs_def)

lemma load_const_term:
  "const_term (load sim_info dists) =
     map (\<lambda>obj. reg_vals3 (sub3 (sub3 obj (si_interim_ln_prior sim_info))
                                 (si_ln_selection_function sim_info)))
       (si_interim_ln_posteriors sim_info)"
  by (simp add: load_def Let_def reg_vals4_def)

lemma const_term_rect:
  assumes "wf_info sim_info" "obj < n_SNe (load sim_info dists)"
  shows "rect3 (n_types (load sim_info dists)) (n_zs (load sim_info dists))
           (n_mus (load sim_info dists)) (const_term (load sim_info dists) ! obj)"
proof -
  let ?post = "si_interim_ln_posteriors sim_info"
  let ?nt = "length (si_types sim_info)"
  let ?nz = "length (si_z_bins sim_info) - 1"
  let ?nm = "length (si_mu_bins sim_info) - 1"
  from assms(2) have o: "obj < length ?post" by (simp add: load_def Let_def)
  then have "?post ! obj \<in> set ?post" by simp
  with assms(1) have ro: "rect3 ?nt ?nz ?nm (?post ! obj)"
    and rp: "rect3 ?nt ?nz ?nm (si_interim_ln_prior sim_info)"
    and rs: "rect3 ?nt ?nz ?nm (si_ln_selection_function sim_info)"
    by (simp_all add: wf_info_def Let_def)
  have "rect3 ?nt ?nz ?nm (reg_vals3 (sub3 (sub3 (?post ! obj) (si_interim_ln_prior sim_info))
                                 (si_ln_selection_function sim_info)))"
    unfolding reg_vals3_def sub3_def
    by (intro rect3_map3 rect3_map2 ro rp rs)
  then show ?thesis using o by (simp add: load_const_term load_shape[OF assms(1)])
qed

lemma const_term_nth:
  assumes "wf_info sim_info" "obj < n_SNe (load sim_info dists)"
    "t < n_types (load sim_info dists)" "z < n_zs (load sim_info dists)"
    "m < n_mus (load sim_info dists)"
  shows "const_term (load sim_info dists) ! obj ! t ! z ! m =
     reg_val log_epsilon (si_interim_ln_posteriors sim_info ! obj ! t ! z ! m
        - si_interim_ln_prior sim_info ! t ! z ! m
        - si_ln_selection_function sim_info ! t ! z ! m)"
proof -
  let ?post = "si_interim_ln_posteriors sim_info"
  let ?nt = "length (si_types sim_info)"
  let ?nz = "length (si_z_bins sim_info) - 1"
  let ?nm = "length (si_mu_bins sim_info) - 1"
  from assms(2) have o: "obj < length ?post" by (simp add: load_def Let_def)
  then have "?post ! obj \<in> set ?post" by simp
  with assms(1) have ro: "rect3 ?nt ?nz ?nm (?post ! obj)"
    and rp: "rect3 ?nt ?nz ?nm (si_interim_ln_prior sim_info)"
    and rs: "rect3 ?nt ?nz ?nm (si_ln_selection_function sim_info)"
    by (simp_all add: wf_info_def Let_def)
  have t: "t < ?nt" "z < ?nz" "m < ?nm" using assms(3-5) load_shape[OF assms(1)] by simp_all
  have r1: "rect3 ?nt ?nz ?nm (sub3 (?post ! obj) (si_interim_ln_prior sim_info))"
    unfolding sub3_def by (intro rect3_map2 ro rp)
  have r2: "rect3 ?nt ?nz ?nm (sub3 (sub3 (?post ! obj) (si_interim_ln_prior sim_info))
      (si_ln_selection_function sim_info))"
    unfolding sub3_def by (intro rect3_map2 ro rp rs)
  have "const_term (load sim_info dists) ! obj ! t ! z ! m =
      reg_vals3 (sub3 (sub3 (?post ! obj) (si_interim_ln_prior sim_info))
                                 (si_ln_selection_function sim_info)) ! t ! z ! m"
    using o by (simp add: load_const_term)
  also have "\<dots> = reg_val log_epsilon (sub3 (sub3 (?post ! obj) (si_interim_ln_prior sim_info))
                                 (si_ln_selection_function sim_info) ! t ! z ! m)"
    unfolding reg_vals3_def by (rule nth_map3[OF r2 t])
  also have "sub3 (sub3 (?post ! obj) (si_interim_ln_prior sim_info))
                                 (si_ln_selection_function sim_info) ! t ! z ! m =
      sub3 (?post ! obj) (si_interim_ln_prior sim_info) ! t ! z ! m
        - si_ln_selection_function sim_info ! t ! z ! m"
    unfolding sub3_def[of "sub3 (?post ! obj) (si_interim_ln_prior sim_info)"]
    by (rule nth_map2_3[OF r1 rs t])
  also have "sub3 (?post ! obj) (si_interim_ln_prior sim_info) ! t ! z ! m =
      ?post ! obj ! t ! z ! m - si_interim_ln_prior sim_info ! t ! z ! m"
    unfolding sub3_def by (rule nth_map2_3[OF ro rp t])
  finally show ?thesis .
qed

lemma rect3_replicate:
  assumes "length matrix = nz" "\<forall>r \<in> set matrix. length r = nm"
  shows "rect3 nt nz nm (replicate nt matrix)"
  using assms by (simp add: rect3_def)

lemma lnhyperlikelihood_rect:
  assumes "wf_info sim_info"
    and "lnhyperlikelihood (load sim_info dists) distmod h = Inr new_term"
  shows "rect3 (n_types (load sim_info dists)) (n_zs (load sim_info dists))
           (n_mus (load sim_info dists)) new_term"
proof -
  let ?g = "load sim_info dists"
  note sh = load_shape[OF assms(1), of dists]
  from assms(1) have pos: "0 < n_mus ?g" "length (mu_bins ?g) = n_mus ?g + 1"
      "length (z_mids ?g) = n_zs ?g"
    and rp: "rect3 (n_types ?g) (n_zs ?g) (n_mus ?g) (si_interim_ln_prior sim_info)"
    using sh by (auto simp: wf_info_def Let_def load_grid length_mids)
  from assms(2) obtain inside where pc: "param_check h = Inr inside"
    by (cases "param_check h") (simp_all add: lnhyperlikelihood_def)
  show ?thesis
  proof (cases inside)
    case False
    with pc assms(2) have "new_term = flat_lnhyperlikelihood ?g"
      by (simp add: lnhyperlikelihood_def)
    then show ?thesis unfolding flat_load using rp by (simp add: rect3_map3)
  next
    case True
    let ?matrix = "map (\<lambda>mu. one_hot (n_mus ?g) (bin_of ?g mu))
        (map (distmod (h ! 0) (h ! 1)) (z_mids ?g))"
    have cd: "cosmo_delta ?g distmod h = Inr (replicate (n_types ?g) ?matrix)"
      unfolding cosmo_delta_def using pos(1,2) by (rule mu_binner_eq)
    have "\<forall>r \<in> set ?matrix. length r = n_mus ?g"
      using one_hot_counts(1)[OF bin_of_less[OF pos(1,2)]] by auto
    then have rd: "rect3 (n_types ?g) (n_zs ?g) (n_mus ?g) (replicate (n_types ?g) ?matrix)"
      using pos(3) by (intro rect3_replicate) simp_all
    from assms(2) pc True cd
    have "new_term = safe_log3 (map (map (map (\<lambda>d. d / norm_sum ?g (replicate (n_types ?g) ?matrix))))
        (replicate (n_types ?g) ?matrix))"
      by (simp add: lnhyperlikelihood_def Let_def split: sum.splits if_splits)
    then show ?thesis unfolding safe_log3_def using rd by (simp only: rect3_map3)
  qed
qed

lemma in_log_obj_combined:
  assumes "wf_info sim_info" "obj < n_SNe (load sim_info dists)"
    and "rect3 (n_types (load sim_info dists)) (n_zs (load sim_info dists))
           (n_mus (load sim_info dists)) new_term"
  shows "in_log_obj (load sim_info dists)
           (reg_vals3 (add3 (const_term (load sim_info dists) ! obj) new_term)) =
         grid_integral (load sim_info dists) new_term obj"
proof -
  let ?g = "load sim_info dists"
  let ?c = "reg_vals3 (add3 (const_term ?g ! obj) new_term)"
  note sh = load_shape[OF assms(1), of dists]
  have rc: "rect3 (n_types ?g) (n_zs ?g) (n_mus ?g) (const_term ?g ! obj)"
    using assms(1,2) by (rule const_term_rect)
  have ra: "rect3 (n_types ?g) (n_zs ?g) (n_mus ?g) (add3 (const_term ?g ! obj) new_term)"
    unfolding add3_def by (intro rect3_map2 rc assms(3))
  have r: "rect3 (n_types ?g) (n_zs ?g) (n_mus ?g) ?c"
    unfolding reg_vals3_def by (intro rect3_map3 ra)
  have lz: "length (z_difs ?g) = n_zs ?g" and lm: "length (mu_difs ?g) = n_mus ?g"
    using sh by (simp_all add: load_grid length_difs)
  have entry: "?c ! t ! z ! m = combined ?g new_term obj t z m"
    if "t < n_types ?g" "z < n_zs ?g" "m < n_mus ?g" for t z m
  proof -
    have "?c ! t ! z ! m = reg_val log_epsilon (add3 (const_term ?g ! obj) new_term ! t ! z ! m)"
      unfolding reg_vals3_def by (rule nth_map3[OF ra that])
    also have "add3 (const_term ?g ! obj) new_term ! t ! z ! m =
        const_term ?g ! obj ! t ! z ! m + new_term ! t ! z ! m"
      unfolding add3_def by (rule nth_map2_3[OF rc assms(3) that])
    finally show ?thesis by (simp add: combined_def)
  qed
  have "in_log_obj ?g ?c = (\<Sum>t < n_types ?g. \<Sum>z < n_zs ?g. \<Sum>m < n_mus ?g.
        exp (?c ! t ! z ! m) * (mu_difs ?g ! m) * (z_difs ?g ! z) / real (n_types ?g))"
    using r lz lm by (rule in_log_obj_nth)
  also have "\<dots> = grid_integral ?g new_term obj"
    unfolding grid_integral_def
    by (intro sum.cong refl) (simp add: entry)
  finally show ?thesis .
qed

lemma lnposterior_spec_eq:
  assumes "wf_info sim_info"
  shows "lnposterior (load sim_info dists) distmod h =
           (case lnhyperlikelihood (load sim_info dists) distmod h of
              Inl e \<Rightarrow> Inl e
            | Inr new_term \<Rightarrow> Inr (log_posterior_spec (load sim_info dists) new_term))"
proof (cases "lnhyperlikelihood (load sim_info dists) distmod h")
  case (Inl e)
  then show ?thesis by (simp add: lnposterior_def)
next
  case (Inr new_term)
  let ?g = "load sim_info dists"
  have rn: "rect3 (n_types ?g) (n_zs ?g) (n_mus ?g) new_term"
    using assms Inr by (rule lnhyperlikelihood_rect)
  have len: "length (const_term ?g) = n_SNe ?g"
    by (simp add: load_def Let_def reg_vals4_def)
  have "sum_list (safe_log1 (map (in_log_obj ?g)
          (map (\<lambda>obj. reg_vals3 (add3 obj new_term)) (const_term ?g)))) =
      sum_list (map (\<lambda>obj. safe_log_elem epsilon (in_log_obj ?g (reg_vals3 (add3 obj new_term))))
          (const_term ?g))"
    by (simp add: safe_log1_def comp_def)
  also have "\<dots> = (\<Sum>obj < n_SNe ?g. safe_log_elem epsilon
        (in_log_obj ?g (reg_vals3 (add3 (const_term ?g ! obj) new_term))))"
    using sum_list_map_nth[of "\<lambda>obj. safe_log_elem epsilon (in_log_obj ?g (reg_vals3 (add3 obj new_term)))"
        "const_term ?g"] len by simp
  also have "\<dots> = log_posterior_spec ?g new_term"
    unfolding log_posterior_spec_def
    by (intro sum.cong refl) (simp add: in_log_obj_combined[OF assms _ rn])
  finally show ?thesis using Inr by (simp add: lnposterior_def Let_def)
qed

lemma frame_fields:
  "mu_vector (g\<lparr>lninterimposteriors := p, lninterimhyperlikelihood := q,
       lnselectionfunction := r\<rparr>) = mu_vector g"
  "norm_sum (g\<lparr>lninterimposteriors := p, lninterimhyperlikelihood := q,
       lnselectionfunction := r\<rparr>) = norm_sum g"
  "assert_sum (g\<lparr>lninterimposteriors := p, lninterimhyperlikelihood := q,
       lnselectionfunction := r\<rparr>) = assert_sum g"
  "in_log_obj (g\<lparr>lninterimposteriors := p, lninterimhyperlikelihood := q,
       lnselectionfunction := r\<rparr>) = in_log_obj g"
  by (rule ext, simp add: mu_vector_def norm_sum_def assert_sum_def in_log_obj_def
      z_difs_def mu_difs_def cong: sum.case_cong)+

lemma mu_rows_frame:
  "mu_rows (g\<lparr>lninterimposteriors := p, lninterimhyperlikelihood := q,
              lnselectionfunction := r\<rparr>) mus = mu_rows g mus"
  by (induction mus) (simp_all add: frame_fields cong: sum.case_cong)

lemma cosmo_delta_frame:
  "cosmo_delta (g\<lparr>lninterimposteriors := p, lninterimhyperlikelihood := q,
              lnselectionfunction := r\<rparr>) = cosmo_delta g"
  by (intro ext) (simp add: cosmo_delta_def mu_binner_def mu_rows_frame z_mids_def cong: sum.case_cong)

lemma lnhyperlikelihood_frame:
  "lnhyperlikelihood (g\<lparr>lninterimposteriors := p, lninterimhyperlikelihood := q,
              lnselectionfunction := r\<rparr>) distmod h = lnhyperlikelihood g distmod h"
  unfolding lnhyperlikelihood_def cosmo_delta_frame frame_fields
  by (simp cong: sum.case_cong if_cong)

lemma lnposterior_frame:
  "lnposterior (g\<lparr>lninterimposteriors := p, lninterimhyperlikelihood := q,
              lnselectionfunction := r\<rparr>) distmod h = lnposterior g distmod h"
  unfolding lnposterior_def lnhyperlikelihood_frame frame_fields
  by (simp cong: sum.case_cong)

text \<open>
  Claim C1. On a well-formed catalogue, for every hyperparameter vector:
  \<open>lnposterior\<close> fails exactly where \<open>lnhyperlikelihood\<close> fails, and otherwise
  returns the sum over the objects of \<open>safe_log\<close> of the integral over the grid,
  the sum over types, redshift bins and distance-modulus bins of
  \<open>exp (clamp (constant_term + log_hyperlikelihood))\<close> times the two bin widths divided
  by \<open>n_types\<close>. Every entry of the constant term is the clamped difference of the
  catalogue entry, the interim prior and the selection function, and it is computed by
  \<open>load\<close>: \<open>lnposterior\<close> reads the stored array and gives the same result
  whatever the catalogue arrays are changed to afterwards.
\<close>

theorem lnposterior_grid_integral:
  assumes "wf_info sim_info"
  shows "lnposterior (load sim_info dists) distmod h =
           (case lnhyperlikelihood (load sim_info dists) distmod h of
              Inl e \<Rightarrow> Inl e
            | Inr new_term \<Rightarrow> Inr (log_posterior_spec (load sim_info dists) new_term))
       \<and> (\<forall>obj < n_SNe (load sim_info dists). \<forall>t < n_types (load sim_info dists).
            \<forall>z < n_zs (load sim_info dists). \<forall>m < n_mus (load sim_info dists).
              const_term (load sim_info dists) ! obj ! t ! z ! m =
                reg_val log_epsilon (si_interim_ln_posteriors sim_info ! obj ! t ! z ! m
                   - si_interim_ln_prior sim_info ! t ! z ! m
                   - si_ln_selection_function sim_info ! t ! z ! m))
       \<and> (\<forall>p q r. lnposterior ((load sim_info dists)\<lparr>lninterimposteriors := p,
                       lninterimhyperlikelihood := q, lnselectionfunction := r\<rparr>) distmod h
                   = lnposterior (load sim_info dists) distmod h)"
  using lnposterior_spec_eq[OF assms] const_term_nth[OF assms] lnposterior_frame
  by blast

lemma safe_log_elem_zero: "safe_log_elem epsilon 0 = ln epsilon"
  by (simp add: safe_log_elem_def epsilon_def max_def)

lemma safe_log_elem_half: "safe_log_elem epsilon (1 / 2) = ln (1 / 2)"
proof -
  have "(1::real) / 2 ^ 1022 \<le> 1 / 2 ^ 1"
    by (intro divide_left_mono power_increasing) simp_all
  then have "max (1 / 2) epsilon = 1 / 2" by (simp add: epsilon_def max_def)
  then show ?thesis by (simp only: safe_log_elem_def)
qed

lemma param_check_70: "param_check [70, 3 / 10] = Inr True"
  by (simp add: param_check_def py_get_def min_H0_def max_H0_def min_Om0_def max_Om0_def)

lemma lnhyperlikelihood_env22:
  "lnhyperlikelihood env22 toy_distmod [70, 3 / 10] =
     Inr [[[ln epsilon, ln (1 / 2)], [ln (1 / 2), ln epsilon]],
          [[ln epsilon, ln (1 / 2)], [ln (1 / 2), ln epsilon]]]"
proof -
  let ?d = "[[[0, 1], [1, 0]], [[0, 1], [1, 0]]] :: arr3"
  let ?h = "[[[0, 1 / 2], [1 / 2, 0]], [[0, 1 / 2], [1 / 2, 0]]] :: arr3"
  have n: "norm_sum env22 ?d = 2"
    by (simp add: norm_sum_def env22_fields)
  have be: "broadcast_extent (length (z_difs env22)) (length (mu_difs env22)) = Inr 2"
    by (simp add: env22_fields broadcast_extent_def)
  have a: "assert_sum env22 ?h = Inr 1"
    by (simp add: assert_sum_def be) (simp add: stretch_def env22_fields)
  have sl: "safe_log3 ?h =
      [[[ln epsilon, ln (1 / 2)], [ln (1 / 2), ln epsilon]],
       [[ln epsilon, ln (1 / 2)], [ln (1 / 2), ln epsilon]]]"
    by (simp add: safe_log3_def safe_log_elem_zero safe_log_elem_half)
  have h: "map (map (map (\<lambda>d. d / 2))) ?d = ?h" by simp
  show ?thesis
    unfolding lnhyperlikelihood_def param_check_70 cosmo_delta_env22
    by (simp only: sum.case if_True Let_def n h a sl isclose_def) simp
qed

lemma wf_grid22: "wf_info grid22"
  by (simp add: wf_info_def grid22_def rect3_def Let_def)

theorem lnposterior_grid_integral_witness:
  "wf_info grid22
   \<and> lnposterior env22 toy_distmod [70, 3 / 10] =
       Inr (log_posterior_spec env22
              [[[ln epsilon, ln (1 / 2)], [ln (1 / 2), ln epsilon]],
               [[ln epsilon, ln (1 / 2)], [ln (1 / 2), ln epsilon]]])
   \<and> const_term env22 ! 0 ! 1 ! 0 ! 1 = 0"
proof -
  from lnposterior_grid_integral [OF wf_grid22, of toy_dists toy_distmod "[70, 3 / 10]"]
  have eq: "lnposterior env22 toy_distmod [70, 3 / 10] =
           (case lnhyperlikelihood env22 toy_distmod [70, 3 / 10] of
              Inl e \<Rightarrow> Inl e
            | Inr new_term \<Rightarrow> Inr (log_posterior_spec env22 new_term))"
    and ct: "\<forall>obj < n_SNe env22. \<forall>t < n_types env22.
            \<forall>z < n_zs env22. \<forall>m < n_mus env22.
              const_term env22 ! obj ! t ! z ! m =
                reg_val log_epsilon (si_interim_ln_posteriors grid22 ! obj ! t ! z ! m
                   - si_interim_ln_prior grid22 ! t ! z ! m
                   - si_ln_selection_function grid22 ! t ! z ! m)"
    unfolding env22_def by blast+
  from ct have "const_term env22 ! 0 ! 1 ! 0 ! 1 = 0"
    by (simp add: env22_fields grid22_def reg_val_def log_epsilon_def)
  with eq wf_grid22 show ?thesis by (simp add: lnhyperlikelihood_env22)
qed

section \<open>The floor of the log-hyperposterior\<close>

text \<open>
  Claim C4. For every hyperparameter vector, \<open>lnhyperposterior\<close> returns a value
  exactly when \<open>lnprior\<close> and \<open>lnposterior\<close> both do, the value is the maximum
  of their sum and \<open>log_epsilon\<close>, and so every value returned is at least
  \<open>log_epsilon\<close>.
\<close>

theorem lnhyperposterior_floor:
  "((lnhyperposterior g distmod h = Inr v) =
      (\<exists>lp lq. lnprior g h = Inr lp \<and> lnposterior g distmod h = Inr lq
          \<and> v = max (lp + lq) log_epsilon))
   \<and> (lnhyperposterior g distmod h = Inr v \<longrightarrow> log_epsilon \<le> v)"
  by (auto simp: lnhyperposterior_def split: sum.splits)

lemma lnprior_env22: "lnprior env22 [70, 3 / 10] = Inr 0"
  by (simp add: lnprior_def env22_def load_def Let_def toy_dists_def py_get_def)

lemma lnposterior_env22:
  "lnposterior env22 toy_distmod [70, 3 / 10] =
     Inr (log_posterior_spec env22
            [[[ln epsilon, ln (1 / 2)], [ln (1 / 2), ln epsilon]],
             [[ln epsilon, ln (1 / 2)], [ln (1 / 2), ln epsilon]]])"
  using lnposterior_spec_eq[OF wf_grid22, of toy_dists toy_distmod "[70, 3 / 10]"]
  by (simp add: lnhyperlikelihood_env22 env22_def[symmetric])

theorem lnhyperposterior_floor_witness:
  "lnhyperposterior env22 toy_distmod [70, 3 / 10] =
     Inr (max (0 + log_posterior_spec env22
            [[[ln epsilon, ln (1 / 2)], [ln (1 / 2), ln epsilon]],
             [[ln epsilon, ln (1 / 2)], [ln (1 / 2), ln epsilon]]]) log_epsilon)
   \<and> log_epsilon \<le> max (0 + log_posterior_spec env22
            [[[ln epsilon, ln (1 / 2)], [ln (1 / 2), ln epsilon]],
             [[ln epsilon, ln (1 / 2)], [ln (1 / 2), ln epsilon]]]) log_epsilon"
  using lnhyperposterior_floor [of env22 toy_distmod "[70, 3 / 10]"
      "max (0 + log_posterior_spec env22
            [[[ln epsilon, ln (1 / 2)], [ln (1 / 2), ln epsilon]],
             [[ln epsilon, ln (1 / 2)], [ln (1 / 2), ln epsilon]]]) log_epsilon"]
  by (simp add: lnprior_env22 lnposterior_env22)

section \<open>The Gelman-Rubin statistic: identical chains, and where it is defined\<close>

lemma len_hd_replicate: "0 < m \<Longrightarrow> len_hd (replicate m c) = length c"
  by (cases m) (simp_all add: len_hd_def)

lemma mean_replicate: "0 < m \<Longrightarrow> mean (replicate m x) = x"
  by (simp add: mean_def sum_list_replicate)

lemma sum_list_replicate_zero_sq:
  "(\<Sum>x\<leftarrow>replicate m a. (a - x) ^ 2) = (0::real)"
  by (induction m) simp_all

text \<open>
  Claim C6. For \<open>m \<ge> 2\<close> identical chains of length \<open>n \<ge> 2\<close> whose sample
  variance is positive, the Gelman-Rubin statistic of the parameter is
  \<open>sqrt ((n - 1) / n)\<close>, which is below 1.
\<close>

theorem gr_identical_chains:
  assumes "2 \<le> m" and "2 \<le> length c" and "0 < var_ddof1 c"
  shows "single_parameter_gr_stat (replicate m c) =
           Inr (Fin (sqrt ((real (length c) - 1) / real (length c))))
       \<and> sqrt ((real (length c) - 1) / real (length c)) < 1"
proof -
  let ?n = "length c"
  let ?v = "var_ddof1 c"
  from assms(1) have m: "0 < m" "real m - 1 \<noteq> 0" by auto
  from assms(2) have n: "?n \<noteq> 0" "?n \<noteq> 1" "0 < real ?n" by auto
  have W: "mean (map var_ddof1 (replicate m c)) = ?v"
    using m(1) by (simp add: mean_replicate)
  have xb: "map mean (replicate m c) = replicate m (mean c)" by simp
  have xbb: "mean (replicate m (mean c)) = mean c" using m(1) by (rule mean_replicate)
  have B: "(\<Sum>x\<leftarrow>replicate m (mean c). (mean c - x) ^ 2) = 0"
    by (rule sum_list_replicate_zero_sq)
  have ratio: "((real ?n - 1) / real ?n * ?v + 1 / real ?n * (real ?n / (real m - 1) * 0)) / ?v
      = (real ?n - 1) / real ?n"
    using assms(3) by simp
  have "single_parameter_gr_stat (replicate m c) =
      Inr (Fin (sqrt (((real ?n - 1) / real ?n * ?v + 1 / real ?n * (real ?n / (real m - 1) * 0)) / ?v)))"
    unfolding single_parameter_gr_stat_def Let_def len_hd_replicate[OF m(1)] W xb xbb B
    using m n assms(3) by simp
  then have eq: "single_parameter_gr_stat (replicate m c) =
      Inr (Fin (sqrt ((real ?n - 1) / real ?n)))"
    by (simp only: ratio)
  have "(real ?n - 1) / real ?n < 1" using n(3) by simp
  then have "sqrt ((real ?n - 1) / real ?n) < 1"
    using real_sqrt_less_iff[of "(real ?n - 1) / real ?n" 1] by simp
  with eq show ?thesis by simp
qed

lemma var_01: "var_ddof1 [0, 1] = 1 / 2"
  by (simp add: var_ddof1_def mean_def power2_eq_square)

theorem gr_identical_chains_witness:
  "(2::nat) \<le> 3 \<and> 2 \<le> length [0, 1 :: real] \<and> 0 < var_ddof1 [0, 1]
   \<and> single_parameter_gr_stat [[0, 1], [0, 1], [0, 1]] = Inr (Fin (sqrt (1 / 2)))
   \<and> sqrt (1 / 2) < (1::real)"
  using gr_identical_chains [of 3 "[0, 1]"]
  by (simp add: var_01 numeral_3_eq_3)

lemma single_defined:
  assumes "2 \<le> length chain" "2 \<le> len_hd chain"
  shows "0 < mean (map var_ddof1 chain)
           \<Longrightarrow> \<exists>r. 0 \<le> r \<and> single_parameter_gr_stat chain = Inr (Fin r)"
    and "mean (map var_ddof1 chain) = 0
           \<Longrightarrow> single_parameter_gr_stat chain = Inr NaN
               \<or> single_parameter_gr_stat chain = Inr PosInf"
proof -
  let ?m = "length chain" and ?n = "len_hd chain"
  let ?W = "mean (map var_ddof1 chain)"
  let ?B = "real ?n / (real ?m - 1) * (\<Sum>x\<leftarrow>map mean chain. (mean (map mean chain) - x) ^ 2)"
  let ?var_x = "(real ?n - 1) / real ?n * ?W + 1 / real ?n * ?B"
  from assms have mn: "real ?m - 1 \<noteq> 0" "?n \<noteq> 0" "?n \<noteq> 1" by auto
  have unfold: "single_parameter_gr_stat chain =
      (if ?W = 0 then (if ?var_x = 0 then Inr NaN else Inr PosInf)
       else Inr (Fin (sqrt (?var_x / ?W))))"
    using mn by (simp add: single_parameter_gr_stat_def Let_def)
  { assume W: "0 < ?W"
    have "0 \<le> (\<Sum>x\<leftarrow>map mean chain. (mean (map mean chain) - x) ^ 2)"
      by (rule sum_list_nonneg) auto
    moreover have "0 \<le> real ?n / (real ?m - 1)" using assms by simp
    ultimately have Bn: "0 \<le> ?B" by (rule mult_nonneg_nonneg[rotated])
    have "0 \<le> 1 / real ?n" by simp
    then have t2: "0 \<le> 1 / real ?n * ?B" using Bn by (rule mult_nonneg_nonneg)
    have Wn: "0 \<le> ?W" using W by simp
    have "0 \<le> (real ?n - 1) / real ?n" using assms(2) by simp
    then have t1: "0 \<le> (real ?n - 1) / real ?n * ?W" using Wn by (rule mult_nonneg_nonneg)
    from t1 t2 have "0 \<le> ?var_x" by (rule add_nonneg_nonneg)
    then have "0 \<le> sqrt (?var_x / ?W)" using W by simp
    with W unfold show "\<exists>r. 0 \<le> r \<and> single_parameter_gr_stat chain = Inr (Fin r)"
      by auto }
  { assume "?W = 0"
    with unfold show "single_parameter_gr_stat chain = Inr NaN
               \<or> single_parameter_gr_stat chain = Inr PosInf"
      by (simp split: if_splits) }
qed

lemma gr_loop_ok:
  assumes "\<forall>i \<in> set ps. \<exists>R. single_parameter_gr_stat (chains_of sample i) = Inr R"
  shows "\<exists>Rs. gr_loop sample ps = Inr Rs \<and> length Rs = length ps
     \<and> (\<forall>k < length ps. single_parameter_gr_stat (chains_of sample (ps ! k)) = Inr (Rs ! k))"
  using assms
proof (induction ps)
  case Nil
  then show ?case by simp
next
  case (Cons i ps)
  then obtain R where R: "single_parameter_gr_stat (chains_of sample i) = Inr R" by auto
  from Cons obtain Rs where Rs: "gr_loop sample ps = Inr Rs" "length Rs = length ps"
    "\<forall>k < length ps. single_parameter_gr_stat (chains_of sample (ps ! k)) = Inr (Rs ! k)"
    by auto
  have "\<forall>k < length (i # ps).
      single_parameter_gr_stat (chains_of sample ((i # ps) ! k)) = Inr ((R # Rs) ! k)"
    using R Rs(3) by (auto simp: nth_Cons split: nat.splits)
  with R Rs(1,2) show ?case by simp
qed

lemma chains_of_shape:
  "length (chains_of sample i) = length sample"
  "len_hd (chains_of sample i) = len_hd sample - len_hd sample div 2"
  by (cases sample; simp add: chains_of_def Let_def len_hd_def)+

text \<open>
  Claim C10, as the code has it. For a chain ensemble of at least two walkers and at
  least three iterations (so that at least two samples per walker are kept),
  \<open>multi_parameter_gr_stat\<close> returns one value per parameter, the value
  \<open>single_parameter_gr_stat\<close> gives for the kept samples of that parameter. Where the
  mean within-chain variance \<open>W\<close> of a parameter is positive the value is a
  nonnegative real; where \<open>W\<close> is 0 the unguarded division leaves \<open>nan\<close> or
  \<open>inf\<close>.
\<close>

theorem gr_stat_defined:
  assumes "2 \<le> length sample" and "3 \<le> len_hd sample" and "i < len_hd (concat sample)"
  shows "\<exists>Rs. multi_parameter_gr_stat sample = Inr Rs
       \<and> length Rs = len_hd (concat sample)
       \<and> single_parameter_gr_stat (chains_of sample i) = Inr (Rs ! i)
       \<and> (0 < mean (map var_ddof1 (chains_of sample i)) \<longrightarrow> (\<exists>r. 0 \<le> r \<and> Rs ! i = Fin r))
       \<and> (mean (map var_ddof1 (chains_of sample i)) = 0 \<longrightarrow> Rs ! i = NaN \<or> Rs ! i = PosInf)"
proof -
  let ?np = "len_hd (concat sample)"
  have sh: "2 \<le> length (chains_of sample j)" "2 \<le> len_hd (chains_of sample j)" for j
    using assms(1,2) by (simp_all add: chains_of_shape)
  have each: "\<exists>R. single_parameter_gr_stat (chains_of sample j) = Inr R" for j
  proof -
    have "real (length (chains_of sample j)) - 1 \<noteq> 0" "len_hd (chains_of sample j) \<noteq> 0"
      using sh[of j] by auto
    then show ?thesis by (auto simp: single_parameter_gr_stat_def Let_def)
  qed
  from gr_loop_ok[of "[0..<?np]" sample] each
  obtain Rs where Rs: "gr_loop sample [0..<?np] = Inr Rs" "length Rs = length [0..<?np]"
    "\<forall>k < length [0..<?np].
        single_parameter_gr_stat (chains_of sample ([0..<?np] ! k)) = Inr (Rs ! k)"
    by blast
  from Rs(3) assms(3) have i: "single_parameter_gr_stat (chains_of sample i) = Inr (Rs ! i)"
    by simp
  have pos: "0 < mean (map var_ddof1 (chains_of sample i)) \<longrightarrow> (\<exists>r. 0 \<le> r \<and> Rs ! i = Fin r)"
    using single_defined(1)[OF sh, of i] i by auto
  have zero: "mean (map var_ddof1 (chains_of sample i)) = 0 \<longrightarrow> Rs ! i = NaN \<or> Rs ! i = PosInf"
    using single_defined(2)[OF sh, of i] i by auto
  from Rs(1,2) i pos zero show ?thesis
    by (intro exI[of _ Rs]) (simp add: multi_parameter_gr_stat_def Let_def)
qed

lemma far_chains: "chains_of far_chain 0 = [[0, 16], [31, 47]]"
  by (simp add: chains_of_def far_chain_def len_hd_def Let_def)

lemma near_chains: "chains_of near_chain 0 = [[0, 4], [1, 5]]"
  by (simp add: chains_of_def near_chain_def len_hd_def Let_def)

lemma lone_chains: "chains_of lone_chain 0 = [[3, 4]]"
  by (simp add: chains_of_def lone_chain_def len_hd_def Let_def)

lemma far_W: "mean (map var_ddof1 [[0, 16], [31, 47]]) = 128"
  by (simp add: mean_def var_ddof1_def power2_eq_square)

lemma sqrt_far: "sqrt (1089 / 256) = 33 / 16"
  by (rule real_sqrt_unique) (simp_all add: power2_eq_square)

lemma sqrt_near: "sqrt (9 / 16) = 3 / 4"
  by (rule real_sqrt_unique) (simp_all add: power2_eq_square)

lemma far_single: "single_parameter_gr_stat [[0, 16], [31, 47]] = Inr (Fin (33 / 16))"
proof -
  have "single_parameter_gr_stat [[0, 16], [31, 47]] = Inr (Fin (sqrt (1089 / 256)))"
    by (simp add: single_parameter_gr_stat_def len_hd_def Let_def mean_def var_ddof1_def
        power2_eq_square)
  then show ?thesis by (simp only: sqrt_far)
qed

lemma near_single: "single_parameter_gr_stat [[0, 4], [1, 5]] = Inr (Fin (3 / 4))"
proof -
  have "single_parameter_gr_stat [[0, 4], [1, 5]] = Inr (Fin (sqrt (9 / 16)))"
    by (simp add: single_parameter_gr_stat_def len_hd_def Let_def mean_def var_ddof1_def
        power2_eq_square)
  then show ?thesis by (simp only: sqrt_near)
qed

lemma far_multi: "multi_parameter_gr_stat far_chain = Inr [Fin (33 / 16)]"
proof -
  have "len_hd (concat far_chain) = 1" by (simp add: far_chain_def len_hd_def)
  then show ?thesis
    by (simp add: multi_parameter_gr_stat_def Let_def far_chains far_single)
qed

lemma near_multi: "multi_parameter_gr_stat near_chain = Inr [Fin (3 / 4)]"
proof -
  have "len_hd (concat near_chain) = 1" by (simp add: near_chain_def len_hd_def)
  then show ?thesis
    by (simp add: multi_parameter_gr_stat_def Let_def near_chains near_single)
qed

theorem gr_stat_defined_witness:
  "2 \<le> length far_chain \<and> 3 \<le> len_hd far_chain \<and> 0 < len_hd (concat far_chain)
   \<and> 0 < mean (map var_ddof1 (chains_of far_chain 0))
   \<and> (\<exists>Rs r. multi_parameter_gr_stat far_chain = Inr Rs \<and> 0 \<le> r \<and> Rs ! 0 = Fin r)"
proof -
  have h1: "2 \<le> length far_chain" and h2: "3 \<le> len_hd far_chain"
    and h3: "0 < len_hd (concat far_chain)"
    by (simp_all add: far_chain_def len_hd_def)
  have W: "0 < mean (map var_ddof1 (chains_of far_chain 0))"
    unfolding far_chains far_W by simp
  from gr_stat_defined [OF h1 h2 h3] W
  have "\<exists>Rs r. multi_parameter_gr_stat far_chain = Inr Rs \<and> 0 \<le> r \<and> Rs ! 0 = Fin r"
    by blast
  with h1 h2 h3 W show ?thesis by blast
qed

text \<open>
  Claim C10 as the specification words it, with \<open>W > 0\<close> as the only precondition,
  fails on an ensemble of a single walker: \<open>W\<close> is positive, and
  \<open>n / (m - 1.)\<close> divides by zero.
\<close>

theorem gr_stat_single_walker_counterexample:
  "0 < mean (map var_ddof1 (chains_of lone_chain 0))
   \<and> single_parameter_gr_stat (chains_of lone_chain 0) = Inl ZeroDivisionError
   \<and> multi_parameter_gr_stat lone_chain = Inl ZeroDivisionError"
proof -
  have W: "mean (map var_ddof1 [[3, 4]]) = 1 / 2"
    by (simp add: mean_def var_ddof1_def power2_eq_square)
  have s: "single_parameter_gr_stat [[3, 4]] = Inl ZeroDivisionError"
    by (simp add: single_parameter_gr_stat_def Let_def)
  have "len_hd (concat lone_chain) = 1" by (simp add: lone_chain_def len_hd_def)
  then have "multi_parameter_gr_stat lone_chain = Inl ZeroDivisionError"
    by (simp add: multi_parameter_gr_stat_def Let_def lone_chains s)
  with W s show ?thesis by (simp add: lone_chains)
qed

section \<open>The assertion inside the log-hyperlikelihood\<close>
lemma wf_grid22u: "wf_info grid22u"
  by (simp add: wf_info_def grid22u_def rect3_def Let_def)

lemma env22u_fields:
  "n_SNe env22u = 1" "n_types env22u = 2" "n_zs env22u = 2" "n_mus env22u = 2"
  "z_bins env22u = [0, 1 / 2, 1]" "mu_bins env22u = [40, 45, 47]"
  "z_difs env22u = [1 / 2, 1 / 2]" "z_mids env22u = [1 / 4, 3 / 4]" "mu_difs env22u = [5, 2]"
  by (simp_all add: env22u_def load_def grid22u_def len_hd_def z_difs_def z_mids_def mu_difs_def
      difs_def mids_def Let_def)

lemma cosmo_delta_env22u:
  "cosmo_delta env22u toy_distmod [70, 3 / 10] = Inr [[[1, 0], [1, 0]], [[1, 0], [1, 0]]]"
  by (simp add: cosmo_delta_def mu_binner_def mu_vector_def env22u_fields py_index_def bisect_def
      bisect_loop.simps Let_def numeral_2_eq_2 toy_distmod_def)

lemma lnhyperlikelihood_env22u:
  "lnhyperlikelihood env22u toy_distmod [70, 3 / 10] = Inl AssertionError"
proof -
  let ?d = "[[[1, 0], [1, 0]], [[1, 0], [1, 0]]] :: arr3"
  let ?h = "[[[1 / 5, 0], [1 / 5, 0]], [[1 / 5, 0], [1 / 5, 0]]] :: arr3"
  have n: "norm_sum env22u ?d = 5"
    by (simp add: norm_sum_def env22u_fields)
  have be: "broadcast_extent (length (z_difs env22u)) (length (mu_difs env22u)) = Inr 2"
    by (simp add: env22u_fields broadcast_extent_def)
  have a: "assert_sum env22u ?h = Inr (7 / 10)"
    by (simp add: assert_sum_def be) (simp add: stretch_def env22u_fields)
  have h: "map (map (map (\<lambda>d. d / 5))) ?d = ?h" by simp
  have nc: "\<not> isclose (7 / 10) 1" by (simp add: isclose_def)
  show ?thesis
    unfolding lnhyperlikelihood_def param_check_70 cosmo_delta_env22u
    by (simp only: sum.case if_True Let_def n h a nc) simp
qed

text \<open>
  Claim C2 at a failing input. On the well-formed catalogue \<open>grid32\<close> (three redshift
  bins, two distance-modulus bins) and the hyperparameters \<open>H0 = 70\<close>,
  \<open>Om0 = 0.3\<close>, which are inside the box, \<open>lnhyperlikelihood\<close> does not return:
  the sum inside its assertion multiplies an array of extent 3 along the redshift axis
  with \<open>mu_difs\<close> of extent 2 laid along the same axis, and numpy raises
  \<open>ValueError\<close>, whatever the distance moduli are. On \<open>grid22u\<close>, a
  square grid whose distance-modulus bins have the widths 5 and 2, the shapes agree, the
  mis-indexed sum is \<open>0.7\<close> and the assertion fails.
\<close>

theorem lnhyperlikelihood_assert_ValueError:
  "param_check [70, 3 / 10] = Inr True
   \<and> lnhyperlikelihood env32 distmod [70, 3 / 10] = Inl ValueError
   \<and> lnhyperlikelihood env22u toy_distmod [70, 3 / 10] = Inl AssertionError"
proof -
  have pc: "param_check [70, 3 / 10] = Inr True"
    by (simp add: param_check_def py_get_def min_H0_def max_H0_def min_Om0_def max_Om0_def)
  have "0 < n_mus env32" "length (mu_bins env32) = n_mus env32 + 1"
    by (simp_all add: env32_fields)
  then obtain delta0 where d: "cosmo_delta env32 distmod [70, 3 / 10] = Inr delta0"
    unfolding cosmo_delta_def using mu_binner_eq by blast
  have "\<And>delta. assert_sum env32 delta = Inl ValueError"
    by (simp add: assert_sum_def broadcast32)
  with pc d have "lnhyperlikelihood env32 distmod [70, 3 / 10] = Inl ValueError"
    by (simp add: lnhyperlikelihood_def Let_def)
  with pc lnhyperlikelihood_env22u show ?thesis by simp
qed

section \<open>The decision of the burn-in loop\<close>

lemma foldl_np_maximum_Fin:
  "foldl np_maximum (Fin a) (map Fin rs) = Fin (Max (set (a # rs)))"
proof (induction rs arbitrary: a)
  case Nil
  then show ?case by simp
next
  case (Cons r rs)
  have "Max (set (max a r # rs)) = Max (set (a # r # rs))"
  proof (cases "rs = []")
    case True
    then show ?thesis by simp
  next
    case False
    then show ?thesis by (simp add: max.assoc)
  qed
  with Cons[of "max a r"] show ?case by simp
qed

lemma np_max_Fin:
  assumes "rs \<noteq> []"
  shows "np_max (map Fin rs) = Inr (Fin (Max (set rs)))"
proof -
  from assms obtain a rest where rs: "rs = a # rest" by (cases rs) auto
  then show ?thesis by (simp add: np_max_def foldl_np_maximum_Fin del: set_simps Max_insert)
qed

lemma last_samples_eq: "last_samples chain = Inr v \<Longrightarrow> v = map last chain"
  by (induction chain arbitrary: v) (auto split: if_splits sum.splits)

text \<open>
  Claim C7, as the code has it. One pass of the burn-in loop, from a state in which the
  loop runs: the epoch is sampled from the current positions and appended to the
  cumulative chain, and \<open>mx\<close> is numpy's maximum of the Gelman-Rubin statistic of the
  cumulative chain (its second half). Then the next positions are the last sample of each
  walker, and the loop runs another epoch from them exactly when \<open>mx\<close> exceeds
  \<open>gr_limit\<close>; otherwise the loop ends and the driver returns the chain of the
  production run started from those positions. Where the statistic is finite for every
  parameter, \<open>mx\<close> is the maximum of its values and the loop ends exactly when that
  maximum is at most \<open>gr_limit\<close>.
\<close>

theorem burn_in_decision:
  assumes "burning_in st"
    and "chain = smp (burn_ins st) (vals st) (ninit cfg)"
    and "multi_parameter_gr_stat (map2 (\<lambda>a b. a @ b) (full_chain st) chain) = Inr Rs"
    and "np_max Rs = Inr mx"
    and "last_samples chain = Inr v"
  shows "\<exists>st'. burn_in_epoch cfg smp st = Inr st'
     \<and> full_chain st' = map2 (\<lambda>a b. a @ b) (full_chain st) chain
     \<and> vals st' = map last chain
     \<and> burn_ins st' = burn_ins st + 1
     \<and> (burning_in st' \<longleftrightarrow> np_greater mx (gr_limit cfg))
     \<and> (np_greater mx (gr_limit cfg) \<longrightarrow>
           burn_in_loop cfg smp st = burn_in_loop cfg smp st'
         \<and> burn_in_loop cfg smp st' =
             (case burn_in_epoch cfg smp st' of
                Inl e \<Rightarrow> Some (Inl e)
              | Inr st'' \<Rightarrow> burn_in_loop cfg smp st'')
         \<and> mcmc_from cfg smp st = mcmc_from cfg smp st')
     \<and> (\<not> np_greater mx (gr_limit cfg) \<longrightarrow>
           burn_in_loop cfg smp st = Some (Inr st')
         \<and> mcmc_from cfg smp st = Some (Inr (production cfg smp st')))
     \<and> (\<forall>rs. Rs = map Fin rs \<longrightarrow>
           mx = Fin (Max (set rs))
         \<and> (np_greater mx (gr_limit cfg) \<longleftrightarrow> gr_limit cfg < Max (set rs))
         \<and> (\<not> np_greater mx (gr_limit cfg) \<longleftrightarrow> Max (set rs) \<le> gr_limit cfg))"
proof -
  let ?fc = "map2 (\<lambda>a b. a @ b) (full_chain st) chain"
  let ?b = "np_greater mx (gr_limit cfg)"
  let ?st' = "\<lparr>burn_ins = burn_ins st + 1, burning_in = ?b, vals = v, full_chain = ?fc\<rparr>"
  have gr: "gr_test ?fc (gr_limit cfg) = Inr ?b"
    using assms(3,4) by (simp add: gr_test_def)
  have ep: "burn_in_epoch cfg smp st = Inr ?st'"
    using gr assms(5) by (simp add: burn_in_epoch_def Let_def assms(2)[symmetric])
  have v: "v = map last chain" using assms(5) by (rule last_samples_eq)
  have step: "burn_in_loop cfg smp st = burn_in_loop cfg smp ?st'"
    using assms(1) ep by (subst burn_in_loop.simps) simp
  have more: "?b \<Longrightarrow> burn_in_loop cfg smp ?st' =
             (case burn_in_epoch cfg smp ?st' of
                Inl e \<Rightarrow> Some (Inl e)
              | Inr st'' \<Rightarrow> burn_in_loop cfg smp st'')"
    by (subst burn_in_loop.simps) simp
  have stop: "\<not> ?b \<Longrightarrow> burn_in_loop cfg smp ?st' = Some (Inr ?st')"
    by (subst burn_in_loop.simps) simp
  have a: "?b \<longrightarrow>
           burn_in_loop cfg smp st = burn_in_loop cfg smp ?st'
         \<and> burn_in_loop cfg smp ?st' =
             (case burn_in_epoch cfg smp ?st' of
                Inl e \<Rightarrow> Some (Inl e)
              | Inr st'' \<Rightarrow> burn_in_loop cfg smp st'')
         \<and> mcmc_from cfg smp st = mcmc_from cfg smp ?st'"
    using step more by (simp add: mcmc_from_def)
  have b: "\<not> ?b \<longrightarrow>
           burn_in_loop cfg smp st = Some (Inr ?st')
         \<and> mcmc_from cfg smp st = Some (Inr (production cfg smp ?st'))"
    using step stop by (simp add: mcmc_from_def)
  have fin: "\<forall>rs. Rs = map Fin rs \<longrightarrow>
           mx = Fin (Max (set rs))
         \<and> (?b \<longleftrightarrow> gr_limit cfg < Max (set rs))
         \<and> (\<not> ?b \<longleftrightarrow> Max (set rs) \<le> gr_limit cfg)"
  proof (intro allI impI)
    fix rs assume Rs: "Rs = map Fin rs"
    have "rs \<noteq> []" using assms(4) Rs by (auto simp: np_max_def)
    from np_max_Fin[OF this] assms(4) Rs have mx: "mx = Fin (Max (set rs))" by simp
    then show "mx = Fin (Max (set rs))
         \<and> (?b \<longleftrightarrow> gr_limit cfg < Max (set rs))
         \<and> (\<not> ?b \<longleftrightarrow> Max (set rs) \<le> gr_limit cfg)"
      by (simp add: not_less)
  qed
  from ep v a b fin show ?thesis
    by (intro exI[of _ ?st']) (simp add: not_less)
qed

lemma init_toy: "init_mcmc toy_cfg [[5], [5]] = Inr toy_start"
  by (simp add: init_mcmc_def toy_cfg_def toy_start_def numeral_2_eq_2)

lemma far_epoch:
  "far_sampler (burn_ins toy_start) (vals toy_start) (ninit toy_cfg) =
     [[[5], [0], [16]], [[5], [31], [47]]]"
  "map2 (\<lambda>a b. a @ b) (full_chain toy_start) [[[5], [0], [16]], [[5], [31], [47]]] = far_chain"
  "last_samples [[[5], [0], [16]], [[5], [31], [47]]] = Inr [[16], [47]]"
  by (simp_all add: far_sampler_def toy_cfg_def toy_start_def far_chain_def)

lemma near_epoch:
  "near_sampler (burn_ins toy_start) (vals toy_start) (ninit toy_cfg) =
     [[[5], [0], [4]], [[5], [1], [5]]]"
  "map2 (\<lambda>a b. a @ b) (full_chain toy_start) [[[5], [0], [4]], [[5], [1], [5]]] = near_chain"
  "last_samples [[[5], [0], [4]], [[5], [1], [5]]] = Inr [[4], [5]]"
  by (simp_all add: near_sampler_def toy_cfg_def toy_start_def near_chain_def)

lemma np_max_one: "np_max [x] = Inr x"
  by (simp add: np_max_def)

theorem burn_in_decision_witness:
  "burning_in toy_start
   \<and> multi_parameter_gr_stat far_chain = Inr [Fin (33 / 16)]
   \<and> multi_parameter_gr_stat near_chain = Inr [Fin (3 / 4)]
   \<and> (\<exists>st'. burn_in_epoch toy_cfg far_sampler toy_start = Inr st'
          \<and> burning_in st' \<and> vals st' = [[16], [47]]
          \<and> burn_in_loop toy_cfg far_sampler toy_start = burn_in_loop toy_cfg far_sampler st')
   \<and> run_MCMC toy_cfg near_sampler [[5], [5]] =
        Some (Inr [[[5], [5], [0], [4], [4]], [[5], [5], [1], [5], [5]]])"
proof -
  have b: "burning_in toy_start" by (simp add: toy_start_def)
  note mf = far_multi and mn = near_multi
  from burn_in_decision [of toy_start "[[[5], [0], [16]], [[5], [31], [47]]]" far_sampler toy_cfg
      "[Fin (33 / 16)]" "Fin (33 / 16)" "[[16], [47]]",
      OF b far_epoch(1)[symmetric] _ np_max_one far_epoch(3)] mf
  obtain st' where far: "burn_in_epoch toy_cfg far_sampler toy_start = Inr st'"
      "vals st' = map last [[[5], [0], [16]], [[5], [31], [47]]]"
      "burning_in st' \<longleftrightarrow> np_greater (Fin (33 / 16)) (gr_limit toy_cfg)"
      "np_greater (Fin (33 / 16)) (gr_limit toy_cfg) \<longrightarrow>
           burn_in_loop toy_cfg far_sampler toy_start = burn_in_loop toy_cfg far_sampler st'"
    unfolding far_epoch(2) by blast
  have gt: "np_greater (Fin (33 / 16)) (gr_limit toy_cfg)" by (simp add: toy_cfg_def)
  from far gt have far': "\<exists>st'. burn_in_epoch toy_cfg far_sampler toy_start = Inr st'
          \<and> burning_in st' \<and> vals st' = [[16], [47]]
          \<and> burn_in_loop toy_cfg far_sampler toy_start = burn_in_loop toy_cfg far_sampler st'"
    by auto
  from burn_in_decision [of toy_start "[[[5], [0], [4]], [[5], [1], [5]]]" near_sampler toy_cfg
      "[Fin (3 / 4)]" "Fin (3 / 4)" "[[4], [5]]",
      OF b near_epoch(1)[symmetric] _ np_max_one near_epoch(3)] mn
  obtain st'' where near: "full_chain st'' = near_chain"
      "vals st'' = map last [[[5], [0], [4]], [[5], [1], [5]]]"
      "burn_ins st'' = burn_ins toy_start + 1"
      "\<not> np_greater (Fin (3 / 4)) (gr_limit toy_cfg) \<longrightarrow>
         mcmc_from toy_cfg near_sampler toy_start =
           Some (Inr (production toy_cfg near_sampler st''))"
    unfolding near_epoch(2) by blast
  have le: "\<not> np_greater (Fin (3 / 4)) (gr_limit toy_cfg)" by (simp add: toy_cfg_def)
  have "production toy_cfg near_sampler st'' =
      [[[5], [5], [0], [4], [4]], [[5], [5], [1], [5], [5]]]"
    using near(1,2,3)
    by (simp add: production_def near_sampler_def toy_cfg_def near_chain_def toy_start_def)
  with near(4) le have "run_MCMC toy_cfg near_sampler [[5], [5]] =
        Some (Inr [[[5], [5], [0], [4], [4]], [[5], [5], [1], [5], [5]]])"
    by (simp add: run_MCMC_def init_toy)
  with b mf mn far' show ?thesis by blast
qed

lemma stuck_multi: "multi_parameter_gr_stat stuck_chain = Inr [NaN]"
proof -
  have c: "chains_of stuck_chain 0 = [[5, 5], [5, 5]]"
    by (simp add: chains_of_def stuck_chain_def len_hd_def Let_def)
  have s: "single_parameter_gr_stat [[5, 5], [5, 5]] = Inr NaN"
    by (simp add: single_parameter_gr_stat_def len_hd_def Let_def mean_def var_ddof1_def)
  have "len_hd (concat stuck_chain) = 1" by (simp add: stuck_chain_def len_hd_def)
  then show ?thesis by (simp add: multi_parameter_gr_stat_def Let_def c s)
qed

lemma stuck_epoch:
  "map2 (\<lambda>a b. a @ b) (full_chain toy_start)
     (stuck_sampler (burn_ins toy_start) (vals toy_start) (ninit toy_cfg)) = stuck_chain"
  "last_samples (stuck_sampler (burn_ins toy_start) (vals toy_start) (ninit toy_cfg)) =
     Inr [[5], [5]]"
  by (simp_all add: stuck_sampler_def toy_cfg_def toy_start_def stuck_chain_def numeral_3_eq_3)

text \<open>
  Claim C7 as the specification words it, leaving burn-in exactly when the maximum is at
  most the threshold, fails where the statistic is \<open>nan\<close>. When every walker stays at
  the common start position, \<open>W\<close> and \<open>B\<close> are 0 and the statistic is \<open>0 / 0\<close>:
  \<open>np.max(gr) > threshold\<close> is false, so the loop ends after the first epoch and the
  production run follows, although \<open>np.max(gr) <= threshold\<close> is false as well.
\<close>

theorem burn_in_nan_counterexample:
  "multi_parameter_gr_stat stuck_chain = Inr [NaN]
   \<and> np_max [NaN] = Inr NaN
   \<and> \<not> np_less_eq NaN (gr_limit toy_cfg)
   \<and> burn_in_epoch toy_cfg stuck_sampler toy_start =
        Inr \<lparr>burn_ins = 1, burning_in = False, vals = [[5], [5]], full_chain = stuck_chain\<rparr>
   \<and> run_MCMC toy_cfg stuck_sampler [[5], [5]] =
        Some (Inr [[[5], [5], [5], [5], [5]], [[5], [5], [5], [5], [5]]])"
proof -
  let ?st' = "\<lparr>burn_ins = 1, burning_in = False, vals = [[5], [5]], full_chain = stuck_chain\<rparr>"
  have gr: "gr_test stuck_chain (gr_limit toy_cfg) = Inr False"
    by (simp add: gr_test_def stuck_multi np_max_def)
  have ep: "burn_in_epoch toy_cfg stuck_sampler toy_start = Inr ?st'"
    by (simp add: burn_in_epoch_def Let_def stuck_epoch gr) (simp add: toy_start_def)
  have "burn_in_loop toy_cfg stuck_sampler toy_start = burn_in_loop toy_cfg stuck_sampler ?st'"
    by (subst burn_in_loop.simps) (simp add: ep, simp add: toy_start_def)
  also have "\<dots> = Some (Inr ?st')"
    by (subst burn_in_loop.simps) simp
  finally have loop: "burn_in_loop toy_cfg stuck_sampler toy_start = Some (Inr ?st')" .
  have "production toy_cfg stuck_sampler ?st' =
      [[[5], [5], [5], [5], [5]], [[5], [5], [5], [5], [5]]]"
    by (simp add: production_def stuck_sampler_def toy_cfg_def stuck_chain_def)
  with loop have "run_MCMC toy_cfg stuck_sampler [[5], [5]] =
        Some (Inr [[[5], [5], [5], [5], [5]], [[5], [5], [5], [5], [5]]])"
    by (simp add: run_MCMC_def init_toy mcmc_from_def)
  with ep show ?thesis by (simp add: stuck_multi np_max_def)
qed

end
